theory Spec2Isabelle
  imports Complex_Main "HOL-Library.AList"
begin

section \<open>Tensors, errors and loops\<close>

text \<open>
  The network classes \<open>DVSR\<close> (model/dvsr.py) and \<open>HVSR\<close> (model/hvsr.py) work on
  PyTorch tensors. A sequence tensor of shape \<open>(n, t, c, h, w)\<close> is modelled time-major:
  a list over the time axis (dim 1) of batch tensors of shape \<open>(n, c, h, w)\<close>, each a list
  over the batch axis of samples, a sample being the row-major flattening of its
  \<open>(c, h, w)\<close> block. So \<open>x[:, i]\<close> is \<open>x ! i\<close>, \<open>x.size(1)\<close> is \<open>length x\<close>,
  \<open>x.flip(1)\<close> is \<open>rev x\<close>, and concatenation along the channel axis appends samples.
  Entries are real numbers: floating-point rounding is not part of the model. Tensor
  shapes are taken to be the ones the docstrings give; a shape mismatch is not modelled
  as an exception. Moving a tensor between devices (\<open>.cpu()\<close>, \<open>.cuda()\<close>, \<open>.to\<close>)
  leaves its value as it is and appears only where it can raise.
\<close>

type_synonym sample = "real list"
type_synonym tensor4 = "sample list"
type_synonym tensor5 = "tensor4 list"

datatype error = AttributeError | IndexError | KeyError | TypeError

definition ebind :: "error + 'a \<Rightarrow> ('a \<Rightarrow> error + 'b) \<Rightarrow> error + 'b" where
  "ebind m f = (case m of Inl e \<Rightarrow> Inl e | Inr x \<Rightarrow> f x)"

text \<open>A \<open>for\<close> loop over a list whose body may raise: the first exception ends it.\<close>

fun efold :: "('a \<Rightarrow> 's \<Rightarrow> error + 's) \<Rightarrow> 'a list \<Rightarrow> 's \<Rightarrow> error + 's" where
  "efold f [] s = Inr s"
| "efold f (x # xs) s = (case f x s of Inl e \<Rightarrow> Inl e | Inr s' \<Rightarrow> efold f xs s')"

text \<open>\<open>xs[i]\<close> on a list, a range or a tensor axis; \<open>xs[-k]\<close> is the \<open>k\<close>-th entry from the end.\<close>

definition py_index :: "'a list \<Rightarrow> int \<Rightarrow> error + 'a" where
  "py_index xs i =
     (if 0 \<le> i \<and> i < int (length xs) then Inr (xs ! nat i)
      else if i < 0 \<and> - int (length xs) \<le> i then Inr (xs ! nat (int (length xs) + i))
      else Inl IndexError)"

definition py_range :: "int \<Rightarrow> int \<Rightarrow> int list" where
  "py_range a b = map (\<lambda>k. a + int k) [0..<nat (b - a)]"

text \<open>\<open>n\<close> of \<open>n, t, c, h, w = x.size()\<close>, read off the first time slice.\<close>

definition size0 :: "tensor5 \<Rightarrow> nat" where
  "size0 x = (case x of [] \<Rightarrow> 0 | f # _ \<Rightarrow> length f)"

text \<open>
  \<open>x.reshape(-1, c, h, w)\<close> and \<open>x.view(-1, c, h, w)\<close> merge batch and time axes in
  row-major order (flat index \<open>b * t + tt\<close>); \<open>y.view(n, t, -1, h, w)\<close> splits them again.
\<close>

definition flatten_nt :: "tensor5 \<Rightarrow> tensor4" where
  "flatten_nt x =
     (let n = size0 x; t = length x
      in map (\<lambda>k. x ! (k mod t) ! (k div t)) [0..<n * t])"

definition view_nt :: "nat \<Rightarrow> nat \<Rightarrow> tensor4 \<Rightarrow> tensor5" where
  "view_nt n t y = map (\<lambda>tt. map (\<lambda>b. y ! (b * t + tt)) [0..<n]) [0..<t]"

text \<open>\<open>torch.cat(xs, dim=1)\<close> on batch tensors and \<open>torch.cat((x, y), dim=2)\<close> on sequences.\<close>

fun cat_dim1 :: "tensor4 list \<Rightarrow> tensor4" where
  "cat_dim1 [] = []"
| "cat_dim1 (x # xs) = fold (\<lambda>y acc. map2 (@) acc y) xs x"

definition cat_dim2 :: "tensor5 \<Rightarrow> tensor5 \<Rightarrow> tensor5" where
  "cat_dim2 x y = map2 (\<lambda>a b. cat_dim1 [a, b]) x y"

text \<open>\<open>torch.chunk(x, 2, dim=1)\<close> on a batch tensor with two channels.\<close>

definition chunk_dim1 :: "tensor4 \<Rightarrow> tensor4 \<times> tensor4" where
  "chunk_dim1 x = (map (\<lambda>s. take (length s div 2) s) x, map (\<lambda>s. drop (length s div 2) s) x)"

definition tensor4_add :: "tensor4 \<Rightarrow> tensor4 \<Rightarrow> tensor4" where
  "tensor4_add x y = map2 (map2 (+)) x y"

definition zeros_like :: "tensor4 \<Rightarrow> tensor4" where
  "zeros_like x = map (map (\<lambda>_. 0)) x"

definition tensor5_sub :: "tensor5 \<Rightarrow> tensor5 \<Rightarrow> tensor5" where
  "tensor5_sub x y = map2 (map2 (map2 (-))) x y"

definition tensor5_add :: "tensor5 \<Rightarrow> tensor5 \<Rightarrow> tensor5" where
  "tensor5_add x y = map2 (map2 (map2 (+))) x y"

definition tensor5_mul :: "tensor5 \<Rightarrow> tensor5 \<Rightarrow> tensor5" where
  "tensor5_mul x y = map2 (map2 (map2 (*))) x y"

text \<open>\<open>torch.norm(x)\<close>: the square root of the sum of the squares of all entries.\<close>

definition torch_norm :: "tensor5 \<Rightarrow> real" where
  "torch_norm x = sqrt (sum_list (map (\<lambda>v. v * v) (concat (concat x))))"

text \<open>
  \<open>torch.chunk(x, 2, dim=1)\<close> on a sequence: chunks of \<open>ceil(t / 2)\<close> frames. The source
  calls it on sequences of even length only, and unpacks two chunks.
\<close>

definition chunk2 :: "'a list \<Rightarrow> 'a list \<times> 'a list" where
  "chunk2 xs = (take ((length xs + 1) div 2) xs, drop ((length xs + 1) div 2) xs)"

section \<open>The learned operators\<close>

text \<open>
  The modules of model/common.py (\<open>SPyNet\<close>, \<open>ResidualBlocksWithInputConv\<close>,
  \<open>SecondOrderDeformableAlignment\<close>, \<open>PixelShufflePack\<close>, \<open>flow_warp\<close>) and the
  resampling functions of PyTorch are parameters of the model. The ones the source calls
  both on one frame and on the merged batch of all frames (\<open>spynet\<close>, \<open>conv_guide_init\<close>,
  \<open>feat_extract\<close>, bicubic interpolation) are functions of a sample, applied to every
  sample of a batch; the others are functions of batch tensors. The first argument of a
  stage-specific module is \<open>hg_idx\<close>.
\<close>

datatype direction = Backward | Forward

text \<open>The keys of the dictionary \<open>feats\<close>: \<open>"spatial"\<close> and \<open>f"{direction}_{iter_}"\<close>.\<close>

datatype key = Spatial | Branch direction nat

record nets =
  spynet :: "nat \<Rightarrow> sample \<Rightarrow> sample \<Rightarrow> sample"
  conv_guide_init :: "nat \<Rightarrow> sample \<Rightarrow> sample"
  feat_extract :: "nat \<Rightarrow> sample \<Rightarrow> sample"
  interpolate_bicubic :: "sample \<Rightarrow> sample"
  flow_warp :: "tensor4 \<Rightarrow> tensor4 \<Rightarrow> tensor4"
  deform_align :: "nat \<Rightarrow> key \<Rightarrow> tensor4 \<Rightarrow> tensor4 \<Rightarrow> tensor4 \<Rightarrow> tensor4 \<Rightarrow> tensor4"
  backbone :: "nat \<Rightarrow> key \<Rightarrow> tensor4 \<Rightarrow> tensor4"
  reconstruction :: "nat \<Rightarrow> tensor4 \<Rightarrow> tensor4"
  final_pred :: "nat \<Rightarrow> tensor4 \<Rightarrow> tensor4"
  img_upsample :: "tensor4 \<Rightarrow> tensor4"
  repeat_interleave_hw :: "nat \<Rightarrow> sample \<Rightarrow> sample"

section \<open>The class DVSR\<close>

text \<open>
  The attributes of a \<open>DVSR\<close> object that its methods read or write. \<open>cpu_cache\<close> is
  assigned by \<open>hg_forward\<close> before any method reads it.
\<close>

record dvsr =
  mid_channels :: nat
  scale :: nat
  cpu_cache_length :: nat
  is_mirror_extended :: bool
  cpu_cache :: bool

definition dvsr_init :: "nat \<Rightarrow> nat \<Rightarrow> nat \<Rightarrow> dvsr" where
  "dvsr_init mid sc len =
     \<lparr>mid_channels = mid, scale = sc, cpu_cache_length = len,
      is_mirror_extended = False, cpu_cache = False\<rparr>"

definition check_if_mirror_extended :: "dvsr \<Rightarrow> tensor5 \<Rightarrow> dvsr" where
  "check_if_mirror_extended self lqs =
     (if length lqs mod 2 = 0 then
        (case chunk2 lqs of (lqs_1, lqs_2) \<Rightarrow>
           if torch_norm (tensor5_sub lqs_1 (rev lqs_2)) = 0
           then self\<lparr>is_mirror_extended := True\<rparr> else self)
      else self)"

text \<open>The two execution modes of the flow network over the consecutive pairs.\<close>

definition flow_sequential :: "nets \<Rightarrow> nat \<Rightarrow> nat \<Rightarrow> tensor5 \<Rightarrow> tensor5 \<Rightarrow> tensor5" where
  "flow_sequential N hg_idx t a b =
     fold (\<lambda>tt flows. flows @ [map2 (spynet N hg_idx) (a ! tt) (b ! tt)]) [0..<t - 1] []"

definition flow_batched :: "nets \<Rightarrow> nat \<Rightarrow> nat \<Rightarrow> nat \<Rightarrow> tensor5 \<Rightarrow> tensor5 \<Rightarrow> tensor5" where
  "flow_batched N hg_idx n t a b =
     view_nt n (t - 1) (map2 (spynet N hg_idx) (flatten_nt a) (flatten_nt b))"

definition compute_flow ::
  "nets \<Rightarrow> dvsr \<Rightarrow> tensor5 \<Rightarrow> nat \<Rightarrow> error + (tensor5 option \<times> tensor5)" where
  "compute_flow N self guides hg_idx =
     (let n = size0 guides; t = length guides;
          guides_1 = butlast guides; guides_2 = tl guides;
          flows_backward =
            (if cpu_cache self then flow_sequential N hg_idx t guides_1 guides_2
             else flow_batched N hg_idx n t guides_1 guides_2);
          flows_forward =
            (if is_mirror_extended self then None
             else if cpu_cache self then Some (flow_sequential N hg_idx t guides_2 guides_1)
             else Some (flow_batched N hg_idx n t guides_2 guides_1))
      in if cpu_cache self then
           (case flows_forward of
              None \<Rightarrow> Inl AttributeError
            | Some ff \<Rightarrow> Inr (Some ff, flows_backward))
         else Inr (flows_forward, flows_backward))"

text \<open>
  The dictionary \<open>feats\<close> keeps its keys in insertion order; assigning to a key that is
  present keeps its place.
\<close>

type_synonym feats = "(key \<times> tensor4 list) list"

definition lookup :: "feats \<Rightarrow> key \<Rightarrow> error + tensor4 list" where
  "lookup feats k = (case map_of feats k of None \<Rightarrow> Inl KeyError | Some v \<Rightarrow> Inr v)"

fun is_backward :: "key \<Rightarrow> bool" where
  "is_backward (Branch Backward _) = True"
| "is_backward _ = False"

text \<open>
  \<open>flows.new_zeros(n, self.mid_channels, h, w)\<close>, with \<open>n, t, _, h, w = flows.size()\<close>
  read off the first sample of the two-channel flow tensor.
\<close>

definition new_zeros :: "dvsr \<Rightarrow> tensor5 \<Rightarrow> tensor4" where
  "new_zeros self flows =
     (let n = size0 flows;
          hw = (case flows of (s # _) # _ \<Rightarrow> length s div 2 | _ \<Rightarrow> 0)
      in replicate n (replicate (mid_channels self * hw) 0))"

text \<open>The body of \<open>if i > 0\<close> in \<open>propagate\<close>: second-order deformable alignment.\<close>

definition second_order_align ::
  "nets \<Rightarrow> tensor5 \<Rightarrow> key \<Rightarrow> nat \<Rightarrow> int list \<Rightarrow> nat \<Rightarrow> tensor4 \<Rightarrow> tensor4 \<Rightarrow> feats
   \<Rightarrow> error + tensor4" where
  "second_order_align N flows module_name hg_idx flow_idx i feat_current feat_prop feats =
     ebind (py_index flow_idx (int i)) (\<lambda>fi.
     ebind (py_index flows fi) (\<lambda>flow_n1.
     let cond_n1 = flow_warp N feat_prop flow_n1 in
     ebind
       (if i > 1 then
          ebind (lookup feats module_name) (\<lambda>own.
          ebind (py_index own (- 2)) (\<lambda>feat_n2.
          ebind (py_index flow_idx (int i - 1)) (\<lambda>fi2.
          ebind (py_index flows fi2) (\<lambda>flow_n2.
          let flow_n2 = tensor4_add flow_n1 (flow_warp N flow_n2 flow_n1);
              cond_n2 = flow_warp N feat_n2 flow_n2
          in Inr (feat_n2, flow_n2, cond_n2)))))
        else Inr (zeros_like feat_prop, zeros_like flow_n1, zeros_like cond_n1))
       (\<lambda>(feat_n2, flow_n2, cond_n2).
     let cond = cat_dim1 [cond_n1, feat_current, cond_n2];
         feat_prop = cat_dim1 [feat_prop, feat_n2]
     in Inr (deform_align N hg_idx module_name feat_prop cond flow_n1 flow_n2))))"

text \<open>One pass through the body of the loop \<open>for i, idx in enumerate(frame_idx)\<close>.\<close>

definition propagate_step ::
  "nets \<Rightarrow> tensor5 \<Rightarrow> key \<Rightarrow> nat \<Rightarrow> int list \<Rightarrow> nat \<times> int \<Rightarrow> tensor4 \<times> feats
   \<Rightarrow> error + tensor4 \<times> feats" where
  "propagate_step N flows module_name hg_idx flow_idx x s =
     (case x of (i, idx) \<Rightarrow> case s of (feat_prop, feats) \<Rightarrow>
        ebind (lookup feats Spatial) (\<lambda>spatial.
        let mapping_idx = map int [0..<length spatial] @ rev (map int [0..<length spatial]) in
        ebind (py_index mapping_idx idx) (\<lambda>m.
        ebind (py_index spatial m) (\<lambda>feat_current.
        ebind
          (if i > 0 then
             second_order_align N flows module_name hg_idx flow_idx i feat_current feat_prop feats
           else Inr feat_prop) (\<lambda>feat_prop.
        ebind
          (efold (\<lambda>k acc. ebind (lookup feats k) (\<lambda>l. ebind (py_index l idx) (\<lambda>v. Inr (acc @ [v]))))
             (filter (\<lambda>k. k \<noteq> Spatial \<and> k \<noteq> module_name) (map fst feats)) []) (\<lambda>others.
        let feat = cat_dim1 ([feat_current] @ others @ [feat_prop]);
            feat_prop = tensor4_add feat_prop (backbone N hg_idx module_name feat) in
        ebind (lookup feats module_name) (\<lambda>own.
        Inr (feat_prop, AList.update module_name (own @ [feat_prop]) feats))))))))"

definition frame_indices :: "nat \<Rightarrow> key \<Rightarrow> int list" where
  "frame_indices t module_name =
     (let frame_idx = py_range 0 (int t + 1)
      in if is_backward module_name then rev frame_idx else frame_idx)"

definition flow_indices :: "nat \<Rightarrow> key \<Rightarrow> int list" where
  "flow_indices t module_name =
     (let flow_idx = py_range (- 1) (int t)
      in if is_backward module_name then frame_indices t module_name else flow_idx)"

definition propagate :: "nets \<Rightarrow> dvsr \<Rightarrow> feats \<Rightarrow> tensor5 \<Rightarrow> key \<Rightarrow> nat \<Rightarrow> error + feats" where
  "propagate N self feats flows module_name hg_idx =
     (let t = length flows;
          frame_idx = frame_indices t module_name;
          flow_idx = flow_indices t module_name;
          feat_prop = new_zeros self flows
      in ebind (efold (propagate_step N flows module_name hg_idx flow_idx)
                  (enumerate 0 frame_idx) (feat_prop, feats)) (\<lambda>(feat_prop, feats).
         if is_backward module_name then
           ebind (lookup feats module_name) (\<lambda>own.
           Inr (AList.update module_name (rev own) feats))
         else Inr feats))"

text \<open>\<open>[feats[k].pop(0) for k in feats if k != "spatial"]\<close>\<close>

definition pop_branches :: "feats \<Rightarrow> error + tensor4 list \<times> feats" where
  "pop_branches feats =
     efold (\<lambda>k (hr, feats).
              ebind (lookup feats k) (\<lambda>l.
              case l of [] \<Rightarrow> Inl IndexError
              | v # rest \<Rightarrow> Inr (hr @ [v], AList.update k rest feats)))
       (filter (\<lambda>k. k \<noteq> Spatial) (map fst feats)) ([], feats)"

definition upsample ::
  "nets \<Rightarrow> dvsr \<Rightarrow> tensor5 \<Rightarrow> feats \<Rightarrow> nat \<Rightarrow> error + tensor5 \<times> tensor5 \<times> tensor5" where
  "upsample N self lqs feats hg_idx =
     ebind (lookup feats Spatial) (\<lambda>spatial0.
     let num_outputs = length spatial0;
         mapping_idx = map int [0..<num_outputs] @ rev (map int [0..<num_outputs]) in
     ebind
       (efold (\<lambda>i (feats, depths, confs, feats_fused).
          ebind (pop_branches feats) (\<lambda>(hr, feats).
          ebind (lookup feats Spatial) (\<lambda>spatial.
          ebind (py_index mapping_idx (int i)) (\<lambda>m.
          ebind (py_index spatial m) (\<lambda>sp.
          let hr = cat_dim1 (sp # hr);
              hr = reconstruction N hg_idx hr;
              feat_fused = hr;
              hr = final_pred N hg_idx hr
          in case chunk_dim1 hr of (depth, conf) \<Rightarrow>
             let depth = tensor4_add depth (img_upsample N (lqs ! i))
             in Inr (feats, depths @ [depth], confs @ [conf], feats_fused @ [feat_fused]))))))
          [0..<length lqs] (feats, [], [], []))
       (\<lambda>(feats, depths, confs, feats_fused). Inr (depths, confs, feats_fused)))"

text \<open>The spatial features of \<open>hg_forward\<close>: frame by frame under CPU offload, else batched.\<close>

definition spatial_features ::
  "nets \<Rightarrow> dvsr \<Rightarrow> tensor5 \<Rightarrow> tensor5 \<Rightarrow> tensor5 option \<Rightarrow> tensor5 option \<Rightarrow> nat
   \<Rightarrow> error + tensor4 list" where
  "spatial_features N self lqs guides extra_inputs extra_feats hg_idx =
     (let n = size0 lqs; t = length lqs in
      if cpu_cache self then
        efold (\<lambda>i spatial.
          if hg_idx = 1 then
            ebind (py_index guides (int i)) (\<lambda>g.
            let guide_feat = map (conv_guide_init N hg_idx) g;
                feat = map (feat_extract N hg_idx) (cat_dim1 [lqs ! i, guide_feat])
            in Inr (spatial @ [feat]))
          else
            (case extra_inputs of None \<Rightarrow> Inl TypeError
             | Some ei \<Rightarrow>
                 ebind (py_index ei (int i)) (\<lambda>e.
                 let guide_feat = map (conv_guide_init N hg_idx) e in
                 (case extra_feats of None \<Rightarrow> Inl TypeError
                  | Some ef \<Rightarrow>
                      ebind (py_index ef (int i)) (\<lambda>f.
                      let feat = map (feat_extract N hg_idx)
                                   (cat_dim1 [lqs ! i, guide_feat, f])
                      in Inr (spatial @ [feat]))))))
          [0..<t] []
      else
        ebind
          (if hg_idx = 1 then
             let guide_feats_all = map (conv_guide_init N hg_idx) (flatten_nt guides)
             in Inr (map (feat_extract N hg_idx) (cat_dim1 [flatten_nt lqs, guide_feats_all]))
           else
             (case extra_inputs of None \<Rightarrow> Inl AttributeError
              | Some ei \<Rightarrow>
                  let guide_feats_all = map (conv_guide_init N hg_idx) (flatten_nt ei) in
                  (case extra_feats of None \<Rightarrow> Inl AttributeError
                   | Some ef \<Rightarrow>
                       Inr (map (feat_extract N hg_idx)
                              (cat_dim1 [flatten_nt lqs, guide_feats_all, flatten_nt ef])))))
          (\<lambda>feats_all.
             let feats_all = view_nt n t feats_all
             in Inr (map (\<lambda>i. feats_all ! i) [0..<t])))"

text \<open>
  \<open>F.interpolate(flows.view(-1, 2, 4h, 4w), scale_factor=0.25, mode="bicubic")
  .view(n, t - 1, 2, h, w) / 4\<close>
\<close>

definition downscale_flows :: "nets \<Rightarrow> nat \<Rightarrow> nat \<Rightarrow> tensor5 \<Rightarrow> tensor5" where
  "downscale_flows N n t flows =
     map (map (map (\<lambda>v. v / 4)))
       (view_nt n (t - 1) (map (interpolate_bicubic N) (flatten_nt flows)))"

text \<open>
  \<open>hg_forward\<close> from the call of \<open>compute_flow\<close> to the start of the propagation loops:
  the values of \<open>flows_forward\<close> and \<open>flows_backward\<close> with which the loops are entered.
  \<open>flows_forward.view\<close> raises on \<open>None\<close>.
\<close>

definition flows_for_propagation ::
  "nets \<Rightarrow> dvsr \<Rightarrow> nat \<Rightarrow> nat \<Rightarrow> tensor5 \<Rightarrow> nat \<Rightarrow> error + tensor5 option \<times> tensor5" where
  "flows_for_propagation N self n t guides hg_idx =
     ebind (compute_flow N self guides hg_idx) (\<lambda>(flows_forward, flows_backward).
     case flows_forward of
       None \<Rightarrow> Inl AttributeError
     | Some ff \<Rightarrow> Inr (Some (downscale_flows N n t ff), downscale_flows N n t flows_backward))"

text \<open>The choice of \<open>flows\<close> inside the propagation loops.\<close>

definition select_flows :: "direction \<Rightarrow> tensor5 option \<Rightarrow> tensor5 \<Rightarrow> tensor5" where
  "select_flows direction flows_forward flows_backward =
     (if direction = Backward then flows_backward
      else case flows_forward of Some ff \<Rightarrow> ff | None \<Rightarrow> rev flows_backward)"

definition hg_forward ::
  "nets \<Rightarrow> dvsr \<Rightarrow> bool \<Rightarrow> tensor5 \<Rightarrow> tensor5 \<Rightarrow> tensor5 option \<Rightarrow> tensor5 option \<Rightarrow> nat
   \<Rightarrow> dvsr \<times> (error + tensor5 \<times> tensor5 \<times> tensor5 option)" where
  "hg_forward N self0 is_cuda lqs guides extra_inputs extra_feats hg_idx =
     (let n = size0 lqs; t = length lqs;
          self1 = self0\<lparr>cpu_cache := (t > cpu_cache_length self0 \<and> is_cuda)\<rparr>;
          self = check_if_mirror_extended self1 lqs
      in (self,
          ebind (spatial_features N self lqs guides extra_inputs extra_feats hg_idx) (\<lambda>spatial.
          ebind (flows_for_propagation N self n t guides hg_idx)
            (\<lambda>(flows_forward, flows_backward).
          ebind
            (efold (\<lambda>(iter, direction) feats.
                      let module = Branch direction iter
                      in propagate N self (AList.update module [] feats)
                           (select_flows direction flows_forward flows_backward) module hg_idx)
               (List.product [1, 2] [Backward, Forward]) [(Spatial, spatial)]) (\<lambda>feats.
          ebind (upsample N self lqs feats hg_idx) (\<lambda>(depth, conf, feats_fused).
          if hg_idx = 1 then Inr (depth, conf, Some feats_fused)
          else Inr (depth, conf, None)))))))"

text \<open>
  \<open>nn.Softmax(dim=2)\<close> on the concatenation of two one-channel confidence maps: in each
  sample the first half is the first channel; \<open>torch.chunk(_, 2, dim=2)\<close> splits again.
\<close>

definition softmax_sample :: "sample \<Rightarrow> sample" where
  "softmax_sample s =
     (let a = take (length s div 2) s; b = drop (length s div 2) s
      in map2 (\<lambda>x y. exp x / (exp x + exp y)) a b @ map2 (\<lambda>x y. exp y / (exp x + exp y)) a b)"

definition softmax_dim2 :: "tensor5 \<Rightarrow> tensor5" where
  "softmax_dim2 x = map (map softmax_sample) x"

definition chunk_dim2 :: "tensor5 \<Rightarrow> tensor5 \<times> tensor5" where
  "chunk_dim2 x = (map (\<lambda>f. fst (chunk_dim1 f)) x, map (\<lambda>f. snd (chunk_dim1 f)) x)"

record intermed =
  d_depth :: tensor5
  rgb_depth :: tensor5
  d_conf :: tensor5
  rgb_conf :: tensor5

text \<open>The last statements of \<open>forward\<close>, the same in \<open>DVSR\<close> and in \<open>HVSR\<close>.\<close>

definition confidence_blend ::
  "tensor5 \<Rightarrow> tensor5 \<Rightarrow> tensor5 \<Rightarrow> tensor5 \<Rightarrow> tensor5 \<times> intermed" where
  "confidence_blend rgb_depth0 rgb_conf0 d_depth0 d_conf0 =
     (case chunk_dim2 (softmax_dim2 (cat_dim2 rgb_conf0 d_conf0)) of (rgb_conf1, d_conf1) \<Rightarrow>
        let depth_final =
              tensor5_add (tensor5_mul d_depth0 d_conf1) (tensor5_mul rgb_depth0 rgb_conf1)
        in (depth_final,
            \<lparr>d_depth = d_depth0, rgb_depth = rgb_depth0, d_conf = d_conf1, rgb_conf = rgb_conf1\<rparr>))"

definition forward ::
  "nets \<Rightarrow> dvsr \<Rightarrow> bool \<Rightarrow> tensor5 \<Rightarrow> tensor5 \<Rightarrow> dvsr \<times> (error + tensor5 \<times> intermed)" where
  "forward N self is_cuda lqs0 guides =
     (let lqs = map (map (repeat_interleave_hw N (scale self div 4))) lqs0
      in case hg_forward N self is_cuda lqs guides None None 1 of
           (self1, Inl e) \<Rightarrow> (self1, Inl e)
         | (self1, Inr (rgb_depth0, rgb_conf0, rgb_feats)) \<Rightarrow>
             (case hg_forward N self1 is_cuda lqs guides
                     (Some (cat_dim2 rgb_depth0 rgb_conf0)) rgb_feats 2 of
                (self2, Inl e) \<Rightarrow> (self2, Inl e)
              | (self2, Inr (d_depth0, d_conf0, _)) \<Rightarrow>
                  (self2, Inr (confidence_blend rgb_depth0 rgb_conf0 d_depth0 d_conf0))))"

text \<open>
  A sequence tensor whose every frame holds \<open>n\<close> samples of \<open>p\<close> entries each: the shape
  \<open>(n, t, c, h, w)\<close> with \<open>p = c * h * w\<close>.
\<close>

definition has_shape :: "nat \<Rightarrow> nat \<Rightarrow> tensor5 \<Rightarrow> bool" where
  "has_shape n p x = list_all (\<lambda>f. length f = n \<and> list_all (\<lambda>s. length s = p) f) x"

text \<open>
  The shapes that the docstring of \<open>hg_forward\<close> gives its arguments: \<open>guides\<close> has as many
  frames as \<open>lqs\<close> and the same batch size in every frame, and in the second stage the
  same holds of \<open>extra_inputs\<close> and \<open>extra_feats\<close>, which are then not \<open>None\<close>.
\<close>

definition stage_shapes ::
  "tensor5 \<Rightarrow> tensor5 \<Rightarrow> tensor5 option \<Rightarrow> tensor5 option \<Rightarrow> nat \<Rightarrow> bool" where
  "stage_shapes lqs guides extra_inputs extra_feats hg_idx =
     (length guides = length lqs
      \<and> list_all (\<lambda>f. length f = size0 lqs) lqs
      \<and> list_all (\<lambda>f. length f = size0 lqs) guides
      \<and> (hg_idx = 1 \<or>
           (case (extra_inputs, extra_feats) of
              (Some ei, Some ef) \<Rightarrow>
                length ei = length lqs \<and> length ef = length lqs
                \<and> list_all (\<lambda>f. length f = size0 lqs) ei
                \<and> list_all (\<lambda>f. length f = size0 lqs) ef
            | _ \<Rightarrow> False)))"

text \<open>
  Stand-ins for the learned operators, used only to run the model on concrete inputs:
  the flow of two frames is their difference, the fusion keeps the first two entries of
  each sample, every other operator passes one of its arguments on.
\<close>

definition example_nets :: nets where
  "example_nets =
     \<lparr>spynet = (\<lambda>h a b. map2 (-) a b), conv_guide_init = (\<lambda>h s. s), feat_extract = (\<lambda>h s. s),
      interpolate_bicubic = (\<lambda>s. s), flow_warp = (\<lambda>x f. x),
      deform_align = (\<lambda>h k x c f1 f2. c), backbone = (\<lambda>h k x. x),
      reconstruction = (\<lambda>h x. map (take 2) x), final_pred = (\<lambda>h x. x),
      img_upsample = (\<lambda>x. x), repeat_interleave_hw = (\<lambda>k s. s)\<rparr>"

section \<open>The histogram error model of model/hvsr.py\<close>

text \<open>
  The functions \<open>dtof_hist_torch\<close>, \<open>get_inp_error\<close> and \<open>get_pos_encoding\<close> work on
  image tensors of shape \<open>(B, C, H, W)\<close>. Here such a tensor is the function from the
  index \<open>(b, c, y, x)\<close> to the entry, and the sizes that the source reads off \<open>.shape\<close>
  are arguments: \<open>C\<close> channels of the guide image, \<open>M\<close> bins of \<open>rebin_idx\<close>. The arguments
  have the shapes of the docstrings, \<open>H\<close> and \<open>W\<close> are multiples of \<open>pitch\<close>, and
  \<open>pitch\<close> is positive. Entries are real numbers.
\<close>

type_synonym grid = "nat \<Rightarrow> nat \<Rightarrow> nat \<Rightarrow> nat \<Rightarrow> real"

text \<open>\<open>torch.sum\<close> and \<open>torch.max\<close> along an axis of size \<open>n\<close> (the maximum for \<open>n > 0\<close>).\<close>

definition axis_sum :: "nat \<Rightarrow> (nat \<Rightarrow> real) \<Rightarrow> real" where
  "axis_sum n f = sum_list (map f [0..<n])"

definition axis_max :: "nat \<Rightarrow> (nat \<Rightarrow> real) \<Rightarrow> real" where
  "axis_max n f = fold (\<lambda>k acc. max acc (f k)) [1..<n] (f 0)"

text \<open>\<open>torch.round\<close> rounds a half to the even neighbour.\<close>

definition torch_round :: "real \<Rightarrow> real" where
  "torch_round v =
     (let f = \<lfloor>v\<rfloor>; frac = v - of_int f
      in if frac < 1 / 2 then of_int f
         else if 1 / 2 < frac then of_int f + 1
         else if even f then of_int f else of_int f + 1)"

definition torch_clamp :: "real \<Rightarrow> real \<Rightarrow> real \<Rightarrow> real" where
  "torch_clamp lo hi v = min (max v lo) hi"

text \<open>\<open>repeat_interleave\<close> by \<open>pitch\<close> along both image axes.\<close>

definition repeat_interleave2 :: "nat \<Rightarrow> (nat \<Rightarrow> nat \<Rightarrow> real) \<Rightarrow> nat \<Rightarrow> nat \<Rightarrow> real" where
  "repeat_interleave2 pitch f y x = f (y div pitch) (x div pitch)"

definition dtof_hist_torch :: "nat \<Rightarrow> nat \<Rightarrow> grid \<Rightarrow> grid \<Rightarrow> grid \<Rightarrow> nat \<Rightarrow> int \<Rightarrow> grid" where
  "dtof_hist_torch C M d img rebin_idx pitch temp_res =
     (let d1 = (\<lambda>b y x. torch_clamp 0 1 (d b 0 y x));
          albedo = (\<lambda>b y x. axis_sum C (\<lambda>c. img b c y x) / real C);
          r = (\<lambda>b y x. albedo b y x / (1 / 1000 + (d1 b y x)\<^sup>2));
          rebin_up = (\<lambda>b k. repeat_interleave2 pitch (rebin_idx b k));
          hist0 = (\<lambda>b y x. axis_sum M (\<lambda>k.
                     if torch_round (d1 b y x * of_int (temp_res - 1)) - rebin_up b k y x \<ge> 0
                     then 1 else 0));
          onehot = (\<lambda>b m y x. if hist0 b y x - real (m + 1) = 0 then 1 else 0)
      in (\<lambda>b m py px.
            axis_sum pitch (\<lambda>dy. axis_sum pitch (\<lambda>dx.
              onehot b m (py * pitch + dy) (px * pitch + dx)
              * r b (py * pitch + dy) (px * pitch + dx)))))"

text \<open>
  The predicted CDF inside \<open>get_inp_error\<close>: the histogram over \<open>rebin_idx[:, :-1]\<close>,
  divided by its sum over the bins plus \<open>1e-3\<close>, and summed up along the bins.
\<close>

definition predicted_cdf :: "nat \<Rightarrow> nat \<Rightarrow> grid \<Rightarrow> grid \<Rightarrow> grid \<Rightarrow> nat \<Rightarrow> int \<Rightarrow> grid" where
  "predicted_cdf C M rebin_idx pred img pitch temp_res =
     (let hist_pred = dtof_hist_torch C (M - 1) pred img rebin_idx pitch temp_res;
          hist_norm = (\<lambda>b m y x. hist_pred b m y x
                         / (axis_sum (M - 1) (\<lambda>k. hist_pred b k y x) + 1 / 1000))
      in (\<lambda>b m y x. axis_sum (m + 1) (\<lambda>k. hist_norm b k y x)))"

text \<open>
  The error map of \<open>get_inp_error\<close> before it is upsampled. \<open>torch.max\<close> along an axis of
  size 0 raises.
\<close>

definition inp_error_map ::
  "nat \<Rightarrow> nat \<Rightarrow> grid \<Rightarrow> grid \<Rightarrow> grid \<Rightarrow> grid \<Rightarrow> nat \<Rightarrow> int \<Rightarrow> error + grid" where
  "inp_error_map C M cdf rebin_idx pred img pitch temp_res =
     (let delta_idx = (\<lambda>b k y x. rebin_idx b (k + 1) y x - rebin_idx b k y x)
      in if M = 0 then Inl IndexError
         else
           let cdf_inp = (\<lambda>b m y x. cdf b m y x / (axis_max M (\<lambda>k. cdf b k y x) + 1 / 1000));
               cdf_pred = predicted_cdf C M rebin_idx pred img pitch temp_res;
               inp_error = (\<lambda>b y x.
                  axis_sum (M - 1) (\<lambda>m. \<bar>(cdf_inp b (m + 1) y x - cdf_pred b m y x)
                                          * delta_idx b m y x\<bar>) / real (M - 1))
           in Inr (\<lambda>b c y x. if axis_max M (\<lambda>k. cdf_inp b k y x) = 0 then - 1
                              else inp_error b y x))"

definition get_inp_error ::
  "nat \<Rightarrow> nat \<Rightarrow> grid \<Rightarrow> grid \<Rightarrow> grid \<Rightarrow> grid \<Rightarrow> nat \<Rightarrow> int \<Rightarrow> error + grid" where
  "get_inp_error C M cdf rebin_idx pred img pitch temp_res =
     ebind (inp_error_map C M cdf rebin_idx pred img pitch temp_res) (\<lambda>inp_error.
     Inr (\<lambda>b c. repeat_interleave2 pitch (inp_error b c)))"

text \<open>
  \<open>-MaxPool2d(kernel_size=pitch, stride=pitch)(-f)\<close> on one image: the window of the
  output pixel \<open>(py, px)\<close> is the block of \<open>pitch\<close> by \<open>pitch\<close> pixels from
  \<open>(py * pitch, px * pitch)\<close>.
\<close>

definition neg_max_pool_neg :: "nat \<Rightarrow> (nat \<Rightarrow> nat \<Rightarrow> real) \<Rightarrow> nat \<Rightarrow> nat \<Rightarrow> real" where
  "neg_max_pool_neg pitch f py px =
     - axis_max pitch (\<lambda>dy. axis_max pitch (\<lambda>dx. - f (py * pitch + dy) (px * pitch + dx)))"

text \<open>The result of \<open>get_pos_encoding\<close>, indexed by \<open>(b, t, c, y, x)\<close>.\<close>

definition get_pos_encoding ::
  "nat \<Rightarrow> nat \<Rightarrow> nat \<Rightarrow> nat \<Rightarrow> nat \<Rightarrow> nat \<Rightarrow> nat \<Rightarrow> nat \<Rightarrow> nat \<Rightarrow> nat \<Rightarrow> real" where
  "get_pos_encoding B T H W pitch =
     (let y = (\<lambda>i j. real i); x = (\<lambda>i j. real j);
          patch_y = repeat_interleave2 pitch (neg_max_pool_neg pitch y);
          patch_x = repeat_interleave2 pitch (neg_max_pool_neg pitch x);
          rel_y = (\<lambda>i j. y i j - patch_y i j);
          rel_x = (\<lambda>i j. x i j - patch_x i j);
          abs_pos = [\<lambda>i j. y i j / real H, \<lambda>i j. x i j / real W];
          rel_pos = [\<lambda>i j. rel_y i j / real pitch, \<lambda>i j. rel_x i j / real pitch];
          patch_pos = [\<lambda>i j. patch_y i j / real H, \<lambda>i j. patch_x i j / real W];
          pos_encoding = abs_pos @ rel_pos @ patch_pos
      in (\<lambda>b t c i j. (pos_encoding ! c) i j))"

section \<open>Detection of mirror-extended sequences\<close>

lemma sub_zero_iff1:
  "length xs = length ys \<Longrightarrow> (\<forall>v\<in>set (map2 (-) xs ys). v = (0::real)) = (xs = ys)"
  by (induction xs ys rule: list_induct2) auto

lemma sub_zero_iff2:
  "length x = length y \<Longrightarrow> \<forall>s\<in>set x. length s = p \<Longrightarrow> \<forall>s\<in>set y. length s = p \<Longrightarrow>
   (\<forall>v\<in>set (concat (map2 (map2 (-)) x y)). v = (0::real)) = (x = y)"
proof (induction x y rule: list_induct2)
  case Nil
  then show ?case by simp
next
  case (Cons a x b y)
  have "length a = length b" using Cons.prems by simp
  from sub_zero_iff1[OF this] Cons show ?case by (auto simp: ball_Un)
qed

lemma sub_zero_iff3:
  "length x = length y \<Longrightarrow> has_shape n p x \<Longrightarrow> has_shape n p y \<Longrightarrow>
   (\<forall>v\<in>set (concat (concat (tensor5_sub x y))). v = 0) = (x = y)"
proof (induction x y rule: list_induct2)
  case Nil
  then show ?case by (simp add: tensor5_sub_def)
next
  case (Cons a x b y)
  have ab: "length a = length b" "\<forall>s\<in>set a. length s = p" "\<forall>s\<in>set b. length s = p"
    using Cons.prems by (simp_all add: has_shape_def list_all_iff)
  have rest: "has_shape n p x" "has_shape n p y"
    using Cons.prems by (simp_all add: has_shape_def)
  from sub_zero_iff2[OF ab] Cons.IH[OF rest] show ?case
    by (auto simp: tensor5_sub_def ball_Un)
qed

lemma torch_norm_zero_iff: "(torch_norm x = 0) = (\<forall>v\<in>set (concat (concat x)). v = 0)"
proof -
  have "(sum_list (map (\<lambda>v. v * v) xs) = 0) = (\<forall>v\<in>set xs. v = (0::real))" for xs
  proof (induction xs)
    case Nil
    then show ?case by simp
  next
    case (Cons a xs)
    have "0 \<le> sum_list (map (\<lambda>v. v * v) xs)"
      by (rule sum_list_nonneg) auto
    then have "(a * a + sum_list (map (\<lambda>v. v * v) xs) = 0)
               = (a = 0 \<and> sum_list (map (\<lambda>v. v * v) xs) = 0)"
      by (simp add: add_nonneg_eq_0_iff)
    with Cons show ?case by simp
  qed
  then show ?thesis by (simp add: torch_norm_def)
qed

text \<open>The test \<open>torch.norm(_) == 0\<close> in a form that can be run.\<close>

lemma check_if_mirror_extended_code [code]:
  "check_if_mirror_extended self lqs =
     (if length lqs mod 2 = 0 then
        (case chunk2 lqs of (lqs_1, lqs_2) \<Rightarrow>
           if list_all (\<lambda>v. v = 0) (concat (concat (tensor5_sub lqs_1 (rev lqs_2))))
           then self\<lparr>is_mirror_extended := True\<rparr> else self)
      else self)"
  by (simp add: check_if_mirror_extended_def torch_norm_zero_iff list_all_iff)

lemma has_shape_take: "has_shape n p x \<Longrightarrow> has_shape n p (take k x)"
  by (auto simp: has_shape_def list_all_iff dest: in_set_takeD)

lemma has_shape_rev_drop: "has_shape n p x \<Longrightarrow> has_shape n p (rev (drop k x))"
  by (auto simp: has_shape_def list_all_iff dest: in_set_dropD)



section \<open>The mirror flag in a stage\<close>

lemma check_keeps_flag:
  "is_mirror_extended self \<Longrightarrow> is_mirror_extended (check_if_mirror_extended self lqs)"
  by (simp add: check_if_mirror_extended_def split: prod.splits)

lemma check_cpu_cache [simp]:
  "cpu_cache (check_if_mirror_extended self lqs) = cpu_cache self"
  by (simp add: check_if_mirror_extended_def split: prod.splits)

lemma tensor5_sub_self_zero: "\<forall>v\<in>set (concat (concat (tensor5_sub x x))). v = 0"
proof -
  have a: "\<forall>v\<in>set (map2 (-) s s). v = (0::real)" for s :: sample
    by (induction s) auto
  have b: "\<forall>v\<in>set (concat (map2 (map2 (-)) f f)). v = (0::real)" for f :: tensor4
    using a by (induction f) (auto simp: ball_Un)
  show ?thesis unfolding tensor5_sub_def
    using b by (induction x) (auto simp: ball_Un)
qed

lemma check_flags_mirror:
  "is_mirror_extended (check_if_mirror_extended self (A @ rev A))"
proof -
  have "(length A + length A + 1) div 2 = length A" by presburger
  then have c: "chunk2 (A @ rev A) = (A, rev A)" by (simp add: chunk2_def)
  have m: "(length A + length A) mod 2 = 0" by presburger
  show ?thesis
    using tensor5_sub_self_zero[of A]
    by (simp add: check_if_mirror_extended_def c m torch_norm_zero_iff)
qed

lemma compute_flow_flagged:
  assumes "is_mirror_extended self"
  shows "compute_flow N self guides hg_idx =
           (if cpu_cache self then Inl AttributeError
            else Inr (None, flow_batched N hg_idx (size0 guides) (length guides)
                              (butlast guides) (tl guides)))"
  using assms by (simp add: compute_flow_def Let_def)

lemma flows_for_propagation_flagged:
  "is_mirror_extended self \<Longrightarrow>
   flows_for_propagation N self n t guides hg_idx = Inl AttributeError"
  by (simp add: flows_for_propagation_def compute_flow_flagged ebind_def)

lemma flows_for_propagation_Some:
  "flows_for_propagation N self n t guides hg_idx = Inr (ff, fb) \<Longrightarrow> ff \<noteq> None"
  by (auto simp: flows_for_propagation_def ebind_def split: sum.splits option.splits prod.splits)

lemma hg_forward_fst:
  "fst (hg_forward N self0 is_cuda lqs guides extra_inputs extra_feats hg_idx) =
   check_if_mirror_extended
     (self0\<lparr>cpu_cache := (length lqs > cpu_cache_length self0 \<and> is_cuda)\<rparr>) lqs"
  by (simp add: hg_forward_def Let_def)

lemma hg_forward_flagged_raises:
  assumes "is_mirror_extended
             (fst (hg_forward N self0 is_cuda lqs guides extra_inputs extra_feats hg_idx))"
  shows "\<exists>e. snd (hg_forward N self0 is_cuda lqs guides extra_inputs extra_feats hg_idx) = Inl e"
proof -
  let ?self = "check_if_mirror_extended
     (self0\<lparr>cpu_cache := (length lqs > cpu_cache_length self0 \<and> is_cuda)\<rparr>) lqs"
  have f: "is_mirror_extended ?self" using assms by (simp add: hg_forward_fst)
  show ?thesis
    by (cases "spatial_features N ?self lqs guides extra_inputs extra_feats hg_idx")
       (simp_all add: hg_forward_def Let_def ebind_def flows_for_propagation_flagged[OF f])
qed


lemma forward_flagged:
  assumes "is_mirror_extended
             (fst (hg_forward N self is_cuda
                     (map (map (repeat_interleave_hw N (scale self div 4))) lqs0) guides None None 1))"
  shows "is_mirror_extended (fst (forward N self is_cuda lqs0 guides))
         \<and> (\<exists>e. snd (forward N self is_cuda lqs0 guides) = Inl e)"
proof -
  let ?h = "hg_forward N self is_cuda
              (map (map (repeat_interleave_hw N (scale self div 4))) lqs0) guides None None 1"
  from hg_forward_flagged_raises[OF assms] obtain e where e: "snd ?h = Inl e" by blast
  then obtain s where h: "?h = (s, Inl e)" by (cases ?h) auto
  then have "forward N self is_cuda lqs0 guides = (s, Inl e)"
    by (simp add: forward_def Let_def)
  with assms h show ?thesis by simp
qed

text \<open>
  Claim C6. In a stage-forward call whose sequence is flagged as mirror-extended,
  \<open>compute_flow\<close> returns \<open>None\<close> for the forward flow, or raises at \<open>.cpu()\<close> under
  CPU offload; \<open>hg_forward\<close> then raises at \<open>flows_forward.view\<close>, so the call ends in an
  exception. Whenever the propagation loops are entered, \<open>flows_forward\<close> is a tensor, so
  the branch \<open>flows = flows_backward.flip(1)\<close> is never taken.
\<close>

theorem flagged_stage_forward_raises:
  assumes flagged: "is_mirror_extended
             (fst (hg_forward N self0 is_cuda lqs guides extra_inputs extra_feats hg_idx))"
  shows "(let self = fst (hg_forward N self0 is_cuda lqs guides extra_inputs extra_feats hg_idx)
          in compute_flow N self guides hg_idx =
               (if cpu_cache self then Inl AttributeError
                else Inr (None, flow_batched N hg_idx (size0 guides) (length guides)
                                  (butlast guides) (tl guides)))
             \<and> flows_for_propagation N self (size0 lqs) (length lqs) guides hg_idx
                 = Inl AttributeError)
         \<and> (\<exists>e. snd (hg_forward N self0 is_cuda lqs guides extra_inputs extra_feats hg_idx) = Inl e)
         \<and> (\<forall>ff fb. flows_for_propagation N self' n' t' guides' hg_idx' = Inr (ff, fb)
               \<longrightarrow> (\<exists>f. ff = Some f \<and> select_flows Forward ff fb = f))"
proof -
  have "\<exists>f. ff = Some f \<and> select_flows Forward ff fb = f"
    if "flows_for_propagation N self' n' t' guides' hg_idx' = Inr (ff, fb)" for ff fb
    using flows_for_propagation_Some[OF that] by (auto simp: select_flows_def)
  then show ?thesis
    using flagged hg_forward_flagged_raises[OF flagged]
    by (simp add: Let_def compute_flow_flagged flows_for_propagation_flagged)
qed

lemmas eval_flows = example_nets_def dvsr_init_def flows_for_propagation_def compute_flow_def
  flow_batched_def flow_sequential_def flatten_nt_def view_nt_def size0_def downscale_flows_def
  ebind_def Let_def

theorem flagged_stage_forward_raises_witness:
  "is_mirror_extended
     (fst (hg_forward example_nets (dvsr_init 64 16 200) False [[[1]], [[1]]] [[[5]], [[7]]] None None 1))
   \<and> snd (hg_forward example_nets (dvsr_init 64 16 200) False [[[1]], [[1]]] [[[5]], [[7]]] None None 1)
       = Inl AttributeError
   \<and> flows_for_propagation example_nets (dvsr_init 64 16 200) 1 2 [[[5]], [[7]]] 1
       = Inr (Some [[[1 / 2]]], [[[- 1 / 2]]])
   \<and> select_flows Forward (Some [[[1 / 2]]]) [[[- 1 / 2]]] = [[[1 / 2]]]"
proof -
  have fl: "is_mirror_extended
     (fst (hg_forward example_nets (dvsr_init 64 16 200) False [[[1]], [[1]]] [[[5]], [[7]]] None None 1))"
    using check_flags_mirror[of _ "[[[1]]]"] by (simp add: hg_forward_fst)
  have fp: "flows_for_propagation example_nets (dvsr_init 64 16 200) 1 2 [[[5]], [[7]]] 1
       = Inr (Some [[[1 / 2]]], [[[- 1 / 2]]])"
    by (simp add: eval_flows upt_conv_Cons)
  have sp: "\<exists>sp. spatial_features example_nets
     (fst (hg_forward example_nets (dvsr_init 64 16 200) False [[[1]], [[1]]] [[[5]], [[7]]] None None 1))
      [[[1]], [[1]]] [[[5]], [[7]]] None None 1 = Inr sp"
    by (simp add: spatial_features_def hg_forward_fst dvsr_init_def ebind_def Let_def)
  have "snd (hg_forward example_nets (dvsr_init 64 16 200) False [[[1]], [[1]]] [[[5]], [[7]]] None None 1)
       = Inl AttributeError"
    using sp fl flows_for_propagation_flagged[OF fl]
    by (auto simp add: hg_forward_def Let_def ebind_def hg_forward_fst)
  then show ?thesis
    using flagged_stage_forward_raises[OF fl, of "dvsr_init 64 16 200" 1 2 "[[[5]], [[7]]]" 1] fl fp
    by (simp add: select_flows_def)
qed

text \<open>
  Claim C5 (what the code does). On every sequence of the form \<open>A ++ reverse(A)\<close> the
  detector sets the mirror flag, and the stage-forward call then ends in an exception:
  no forward flow is derived from the backward flow, the propagation is never reached.
\<close>

theorem mirror_sequence_stage_raises:
  "is_mirror_extended (check_if_mirror_extended self (A @ rev A))
   \<and> is_mirror_extended (fst (hg_forward N self0 is_cuda (A @ rev A) guides extra_inputs extra_feats hg_idx))
   \<and> (\<exists>e. snd (hg_forward N self0 is_cuda (A @ rev A) guides extra_inputs extra_feats hg_idx) = Inl e)"
proof -
  have "is_mirror_extended
          (fst (hg_forward N self0 is_cuda (A @ rev A) guides extra_inputs extra_feats hg_idx))"
    by (simp only: hg_forward_fst check_flags_mirror)
  with hg_forward_flagged_raises[OF this] show ?thesis
    by (simp add: check_flags_mirror)
qed

text \<open>
  Claim C4 (what the code does). The mirror flag is an attribute of the object that
  nothing resets: after a forward call on a mirror-extended sequence, the next forward
  call, on any sequence, still finds the flag set after its own check, and ends in an
  exception.
\<close>

theorem mirror_flag_persists:
  "(let self1 = fst (forward N self0 is_cuda (A @ rev A) guides)
    in is_mirror_extended self1
       \<and> is_mirror_extended (check_if_mirror_extended self1 lqs')
       \<and> is_mirror_extended (fst (forward N self1 is_cuda' lqs' guides'))
       \<and> (\<exists>e. snd (forward N self1 is_cuda' lqs' guides') = Inl e))"
proof -
  let ?self1 = "fst (forward N self0 is_cuda (A @ rev A) guides)"
  have a: "is_mirror_extended
             (fst (hg_forward N self0 is_cuda
                     (map (map (repeat_interleave_hw N (scale self0 div 4))) (A @ rev A)) guides None None 1))"
    by (simp only: hg_forward_fst map_append rev_map[symmetric] check_flags_mirror)
  have f1: "is_mirror_extended ?self1" using forward_flagged[OF a] by simp
  have b: "is_mirror_extended
             (fst (hg_forward N ?self1 is_cuda'
                     (map (map (repeat_interleave_hw N (scale ?self1 div 4))) lqs') guides' None None 1))"
    unfolding hg_forward_fst by (rule check_keeps_flag) (simp add: f1)
  show ?thesis
    using f1 check_keeps_flag[OF f1] forward_flagged[OF b] by (simp add: Let_def)
qed

section \<open>The confidence blend\<close>


lemma chunk_softmax_sample:
  "take (length (softmax_sample s) div 2) (softmax_sample s)
     = map2 (\<lambda>x y. exp x / (exp x + exp y)) (take (length s div 2) s) (drop (length s div 2) s)"
  "drop (length (softmax_sample s) div 2) (softmax_sample s)
     = map2 (\<lambda>x y. exp y / (exp x + exp y)) (take (length s div 2) s) (drop (length s div 2) s)"
  by (simp_all add: softmax_sample_def Let_def min_def)

lemma chunk_softmax_general:
  "chunk_dim2 (softmax_dim2 x) =
     (map (map (\<lambda>s. map2 (\<lambda>x y. exp x / (exp x + exp y))
                       (take (length s div 2) s) (drop (length s div 2) s))) x,
      map (map (\<lambda>s. map2 (\<lambda>x y. exp y / (exp x + exp y))
                       (take (length s div 2) s) (drop (length s div 2) s))) x)"
  by (simp add: chunk_dim2_def softmax_dim2_def chunk_dim1_def chunk_softmax_sample)

lemma weights_sum_sample:
  "map2 (+) (map2 (\<lambda>x y. exp x / (exp x + exp y)) s1 s2)
            (map2 (\<lambda>x y. exp y / (exp x + exp y)) s1 s2)
   = map (\<lambda>_. 1::real) (map2 (\<lambda>x y. exp x / (exp x + exp y)) s1 s2)"
proof (induction s1 arbitrary: s2)
  case Nil then show ?case by simp
next
  case (Cons x s1)
  have "exp x / (exp x + exp y) + exp y / (exp x + exp y) = 1" for y :: real
    by (metis add_divide_distrib add_pos_pos div_self exp_gt_zero less_numeral_extra(3))
  then show ?case using Cons by (cases s2) auto
qed

lemma weights_sum_general:
  "case chunk_dim2 (softmax_dim2 x) of (w1, w2) \<Rightarrow>
     tensor5_add w1 w2 = map (map (map (\<lambda>_. 1))) w1
     \<and> list_all (\<lambda>v. 0 \<le> v \<and> v \<le> 1) (concat (concat w1))
     \<and> list_all (\<lambda>v. 0 \<le> v \<and> v \<le> 1) (concat (concat w2))"
proof -
  have b1: "0 \<le> exp x / (exp x + exp y) \<and> exp x / (exp x + exp y) \<le> 1" for x y :: real
    by (simp add: divide_le_eq_1 add_pos_pos)
  have b2: "0 \<le> exp y / (exp x + exp y) \<and> exp y / (exp x + exp y) \<le> 1" for x y :: real
    by (simp add: divide_le_eq_1 add_pos_pos)
  have s: "map2 (map2 (+)) (map (\<lambda>s. map2 (\<lambda>x y. exp x / (exp x + exp y))
                       (take (length s div 2) s) (drop (length s div 2) s)) f)
               (map (\<lambda>s. map2 (\<lambda>x y. exp y / (exp x + exp y))
                       (take (length s div 2) s) (drop (length s div 2) s)) f)
      = map (map (\<lambda>_. 1::real)) (map (\<lambda>s. map2 (\<lambda>x y. exp x / (exp x + exp y))
                       (take (length s div 2) s) (drop (length s div 2) s)) f)" for f :: tensor4
    by (induction f) (simp_all add: weights_sum_sample)
  have "tensor5_add (map (map (\<lambda>s. map2 (\<lambda>x y. exp x / (exp x + exp y))
                       (take (length s div 2) s) (drop (length s div 2) s))) x)
               (map (map (\<lambda>s. map2 (\<lambda>x y. exp y / (exp x + exp y))
                       (take (length s div 2) s) (drop (length s div 2) s))) x)
      = map (map (map (\<lambda>_. 1::real))) (map (map (\<lambda>s. map2 (\<lambda>x y. exp x / (exp x + exp y))
                       (take (length s div 2) s) (drop (length s div 2) s))) x)"
    unfolding tensor5_add_def by (induction x) (simp_all add: s)
  moreover have "list_all (\<lambda>v. 0 \<le> v \<and> v \<le> 1) (concat (concat
       (map (map (\<lambda>s. map2 (\<lambda>x y. exp x / (exp x + exp y))
                       (take (length s div 2) s) (drop (length s div 2) s))) x)))"
    using b1 by (auto simp: list_all_iff elim!: in_set_zipE)
  moreover have "list_all (\<lambda>v. 0 \<le> v \<and> v \<le> 1) (concat (concat
       (map (map (\<lambda>s. map2 (\<lambda>x y. exp y / (exp x + exp y))
                       (take (length s div 2) s) (drop (length s div 2) s))) x)))"
    using b2 by (auto simp: list_all_iff elim!: in_set_zipE)
  ultimately show ?thesis by (simp add: chunk_softmax_general)
qed

lemma softmax_cat_frame:
  assumes "length a = length b" "\<forall>s\<in>set a. length s = p" "\<forall>s\<in>set b. length s = p"
  shows "map (\<lambda>s. map2 f (take (length s div 2) s) (drop (length s div 2) s)) (cat_dim1 [a, b])
         = map2 (map2 f) a b"
  using assms by (induction a b rule: list_induct2) simp_all

lemma softmax_cat_seq:
  assumes "length c1 = length c2" "has_shape n p c1" "has_shape n p c2"
  shows "map (map (\<lambda>s. map2 f (take (length s div 2) s) (drop (length s div 2) s))) (cat_dim2 c1 c2)
         = map2 (map2 (map2 f)) c1 c2"
  using assms
proof (induction c1 c2 rule: list_induct2)
  case Nil
  then show ?case by (simp add: cat_dim2_def)
next
  case (Cons a c1 b c2)
  have ab: "length a = length b" "\<forall>s\<in>set a. length s = p" "\<forall>s\<in>set b. length s = p"
    using Cons.prems by (simp_all add: has_shape_def list_all_iff)
  have rest: "has_shape n p c1" "has_shape n p c2"
    using Cons.prems by (simp_all add: has_shape_def)
  from Cons.IH[OF rest] softmax_cat_frame[OF ab, of f] show ?case
    by (simp add: cat_dim2_def)
qed

lemma ones_like_map2:
  assumes "length c1 = length c2" "has_shape n p c1" "has_shape n p c2"
  shows "map (map (map (\<lambda>_. 1::real))) (map2 (map2 (map2 f)) c1 c2) = map (map (map (\<lambda>_. 1))) c1"
  using assms
proof (induction c1 c2 rule: list_induct2)
  case Nil
  then show ?case by simp
next
  case (Cons a c1 b c2)
  have ab: "length a = length b" "\<forall>s\<in>set a. length s = p" "\<forall>s\<in>set b. length s = p"
    using Cons.prems by (simp_all add: has_shape_def list_all_iff)
  have rest: "has_shape n p c1" "has_shape n p c2"
    using Cons.prems by (simp_all add: has_shape_def)
  have "map (map (\<lambda>_. 1::real)) (map2 (map2 f) a b) = map (map (\<lambda>_. 1)) a"
    using ab by (induction a b rule: list_induct2) (simp_all add: map_replicate_const)
  with Cons.IH[OF rest] show ?case by simp
qed

lemma forward_blend:
  assumes "snd (forward N self is_cuda lqs guides) = Inr (df, im)"
  shows "\<exists>da ka db kb. confidence_blend da ka db kb = (df, im)"
  using assms
  by (auto simp: forward_def Let_def split: prod.splits sum.splits)



lemmas eval_blend = confidence_blend_def chunk_dim2_def softmax_dim2_def cat_dim2_def chunk_dim1_def
  softmax_sample_def tensor5_add_def tensor5_mul_def Let_def

lemma example_stage_1:
  "hg_forward example_nets (dvsr_init 64 16 200) False [[[1]], [[3]]] [[[5]], [[7]]] None None 1
   = (dvsr_init 64 16 200, Inr ([[[2]], [[6]]], [[[5]], [[7]]], Some [[[1, 5]], [[3, 7]]]))"
  by code_simp

lemma example_stage_2:
  "hg_forward example_nets (dvsr_init 64 16 200) False [[[1]], [[3]]] [[[5]], [[7]]]
     (Some (cat_dim2 [[[2]], [[6]]] [[[5]], [[7]]])) (Some [[[1, 5]], [[3, 7]]]) 2
   = (dvsr_init 64 16 200, Inr ([[[2]], [[6]]], [[[2]], [[6]]], None))"
  by code_simp

lemma example_forward:
  "snd (forward example_nets (dvsr_init 64 16 200) False [[[1]], [[3]]] [[[5]], [[7]]])
   = Inr (confidence_blend [[[2]], [[6]]] [[[5]], [[7]]] [[[2]], [[6]]] [[[2]], [[6]]])"
proof -
  have r: "repeat_interleave_hw example_nets k s = s" for k s
    by (simp add: example_nets_def)
  show ?thesis
    by (simp add: forward_def Let_def r example_stage_1 example_stage_2 del: One_nat_def)
qed


section \<open>The propagation loop\<close>


lemma py_index_nat: "k < length xs \<Longrightarrow> py_index xs (int k) = Inr (xs ! k)"
  by (simp add: py_index_def)

lemma py_index_in_range:
  "0 \<le> i \<Longrightarrow> i < int (length xs) \<Longrightarrow> py_index xs i = Inr (xs ! nat i)"
  by (simp add: py_index_def)

lemma py_index_minus2:
  "2 \<le> length xs \<Longrightarrow> py_index xs (- 2) = Inr (xs ! (length xs - 2))"
  by (simp add: py_index_def nat_diff_distrib')

lemma length_py_range [simp]: "length (py_range a b) = nat (b - a)"
  by (simp add: py_range_def)

lemma nth_py_range: "k < nat (b - a) \<Longrightarrow> py_range a b ! k = a + int k"
  by (simp add: py_range_def)

lemma length_frame_indices [simp]: "length (frame_indices t m) = Suc t"
  by (simp add: frame_indices_def Let_def nat_add_distrib)

lemma nth_frame_indices:
  "i \<le> t \<Longrightarrow> frame_indices t m ! i = (if is_backward m then int (t - i) else int i)"
  by (simp add: frame_indices_def Let_def rev_nth nth_py_range nat_add_distrib)

lemma length_flow_indices [simp]: "length (flow_indices t m) = Suc t"
  by (simp add: flow_indices_def Let_def nat_add_distrib)

lemma nth_flow_indices:
  "i \<le> t \<Longrightarrow> flow_indices t m ! i = (if is_backward m then int (t - i) else int i - 1)"
  by (simp add: flow_indices_def Let_def nth_frame_indices nth_py_range nat_add_distrib)

lemma ebind_simps [simp]: "ebind (Inr x) f = f x" "ebind (Inl e) f = Inl e"
  by (simp_all add: ebind_def)

lemma efold_append:
  "efold f (xs @ ys) s = (case efold f xs s of Inl e \<Rightarrow> Inl e | Inr s' \<Rightarrow> efold f ys s')"
  by (induction xs arbitrary: s) (auto split: sum.splits)

lemma efold_collect:
  assumes "\<And>x acc. x \<in> set xs \<Longrightarrow> f x acc = Inr (acc @ [g x])"
  shows "efold f xs acc = Inr (acc @ map g xs)"
  using assms by (induction xs arbitrary: acc) auto

lemma mapping_idx_nth:
  "k < n \<Longrightarrow> py_index (map int [0..<n] @ rev (map int [0..<n])) (int k) = Inr (int k)"
  by (simp add: py_index_def nth_append)


lemma second_order_align_ok:
  assumes i: "1 \<le> i" "i \<le> t"
      and fl: "length flows = t"
      and fi: "length flow_idx = Suc t"
              "\<And>j. 1 \<le> j \<Longrightarrow> j \<le> t \<Longrightarrow> 0 \<le> flow_idx ! j \<and> flow_idx ! j < int t"
      and own: "map_of feats m = Some own" "length own = i"
  shows "\<exists>r. second_order_align N flows m hg flow_idx i feat_current fp feats = Inr r"
proof -
  have a: "py_index flow_idx (int i) = Inr (flow_idx ! i)"
    using i fi(1) by (simp add: py_index_nat)
  have b: "py_index flows (flow_idx ! i) = Inr (flows ! nat (flow_idx ! i))"
    using fi(2)[of i] i fl by (simp add: py_index_in_range)
  show ?thesis
  proof (cases "i > 1")
    case False
    then show ?thesis
      by (simp add: second_order_align_def a b Let_def)
  next
    case True
    have c: "py_index own (- 2) = Inr (own ! (length own - 2))"
      using True own(2) by (simp add: py_index_minus2)
    have im: "int i - 1 = int (i - Suc 0)" using True by simp
    have "py_index flow_idx (int (i - Suc 0)) = Inr (flow_idx ! (i - Suc 0))"
      by (rule py_index_nat) (use i fi(1) in simp)
    then have d: "py_index flow_idx (int i - 1) = Inr (flow_idx ! (i - Suc 0))"
      unfolding im .
    have e: "py_index flows (flow_idx ! (i - Suc 0)) = Inr (flows ! nat (flow_idx ! (i - Suc 0)))"
      using fi(2)[of "i - 1"] True i fl by (simp add: py_index_in_range)
    show ?thesis using True
      by (simp add: second_order_align_def a b c d e Let_def lookup_def own(1))
  qed
qed

lemma others_ok:
  assumes "\<And>k. k \<in> set ks \<Longrightarrow> \<exists>l. map_of feats k = Some l \<and> j < length l"
  shows "\<exists>os. efold (\<lambda>k acc. ebind (lookup feats k) (\<lambda>l. ebind (py_index l (int j))
                  (\<lambda>v. Inr (acc @ [v])))) ks [] = Inr os"
proof -
  have "efold (\<lambda>k acc. ebind (lookup feats k) (\<lambda>l. ebind (py_index l (int j))
                  (\<lambda>v. Inr (acc @ [v])))) ks []
        = Inr ([] @ map (\<lambda>k. the (map_of feats k) ! j) ks)"
  proof (rule efold_collect)
    fix k acc assume "k \<in> set ks"
    from assms[OF this] obtain l where l: "map_of feats k = Some l" "j < length l" by blast
    then show "ebind (lookup feats k) (\<lambda>l. ebind (py_index l (int j)) (\<lambda>v. Inr (acc @ [v])))
               = Inr (acc @ [the (map_of feats k) ! j])"
      by (simp add: lookup_def py_index_nat)
  qed
  then show ?thesis by blast
qed

lemma propagate_step_ok:
  assumes sp: "map_of feats Spatial = Some spatial" "length spatial = Suc t"
      and own: "map_of feats m = Some own" "length own = i"
      and others: "\<And>k. k \<in> set (map fst feats) \<Longrightarrow> k \<noteq> Spatial \<Longrightarrow> k \<noteq> m \<Longrightarrow>
                     \<exists>l. map_of feats k = Some l \<and> Suc t \<le> length l"
      and i: "i \<le> t" and j: "j \<le> t"
      and fl: "length flows = t"
      and fi: "length flow_idx = Suc t"
              "\<And>j. 1 \<le> j \<Longrightarrow> j \<le> t \<Longrightarrow> 0 \<le> flow_idx ! j \<and> flow_idx ! j < int t"
  shows "\<exists>fp'. propagate_step N flows m hg flow_idx (i, int j) (fp, feats)
               = Inr (fp', AList.update m (own @ [fp']) feats)"
proof -
  have a: "lookup feats Spatial = Inr spatial" using sp by (simp add: lookup_def)
  have b: "py_index (map int [0..<length spatial] @ rev (map int [0..<length spatial])) (int j)
           = Inr (int j)"
    by (rule mapping_idx_nth) (use j sp(2) in simp)
  have c: "py_index spatial (int j) = Inr (spatial ! j)"
    using j sp(2) by (simp add: py_index_nat)
  obtain fp1 where d: "(if i > 0 then
             second_order_align N flows m hg flow_idx i (spatial ! j) fp feats
           else Inr fp) = Inr fp1"
  proof (cases "i > 0")
    case True
    then have "1 \<le> i" by simp
    from second_order_align_ok[OF this i fl fi own, of N hg "spatial ! j" fp] True that
    show ?thesis by auto
  next
    case False
    with that show ?thesis by simp
  qed
  have "\<exists>l. map_of feats k = Some l \<and> j < length l"
    if "k \<in> set (filter (\<lambda>k. k \<noteq> Spatial \<and> k \<noteq> m) (map fst feats))" for k
  proof -
    from that have "k \<in> set (map fst feats)" "k \<noteq> Spatial" "k \<noteq> m" by auto
    from others[OF this] j show ?thesis by fastforce
  qed
  from others_ok[of "filter (\<lambda>k. k \<noteq> Spatial \<and> k \<noteq> m) (map fst feats)" feats j, OF this]
  obtain os where e: "efold (\<lambda>k acc. ebind (lookup feats k) (\<lambda>l. ebind (py_index l (int j))
                  (\<lambda>v. Inr (acc @ [v])))) (filter (\<lambda>k. k \<noteq> Spatial \<and> k \<noteq> m) (map fst feats)) []
                 = Inr os" by blast
  have f: "lookup feats m = Inr own" using own by (simp add: lookup_def)
  show ?thesis
    unfolding propagate_step_def
    by (simp only: prod.case a b c d e f ebind_simps Let_def) blast
qed


lemma flow_indices_range:
  assumes "1 \<le> j" "j \<le> t"
  shows "0 \<le> flow_indices t m ! j \<and> flow_indices t m ! j < int t"
  using assms by (auto simp: nth_flow_indices)

lemma propagate_prefix:
  assumes sp: "map_of feats Spatial = Some spatial" "length spatial = Suc t"
      and m: "m \<noteq> Spatial" and own0: "map_of feats m = Some []"
      and others: "\<And>k. k \<in> set (map fst feats) \<Longrightarrow> k \<noteq> Spatial \<Longrightarrow> k \<noteq> m \<Longrightarrow>
                     \<exists>l. map_of feats k = Some l \<and> Suc t \<le> length l"
      and fl: "length flows = t"
      and j: "j \<le> Suc t"
  shows "\<exists>fp own. efold (propagate_step N flows m hg (flow_indices t m))
                     (take j (enumerate 0 (frame_indices t m))) (fp0, feats)
                   = Inr (fp, AList.update m own feats) \<and> length own = j"
  using j
proof (induction j)
  case 0
  have "AList.update m [] feats = feats" by (rule update_triv[OF own0])
  then show ?case by simp
next
  case (Suc j)
  then have jt: "j \<le> t" by simp
  from Suc obtain fp own where
    IH: "efold (propagate_step N flows m hg (flow_indices t m))
           (take j (enumerate 0 (frame_indices t m))) (fp0, feats)
         = Inr (fp, AList.update m own feats)" "length own = j" by auto
  let ?fs = "AList.update m own feats"
  have mk: "m \<in> set (map fst feats)"
    using own0 by (metis map_of_eq_None_iff option.distinct(1) set_map)
  have keys: "map fst ?fs = map fst feats" using mk by (simp add: update_keys)
  have a: "map_of ?fs Spatial = Some spatial" using sp(1) m by (simp add: update_conv')
  have b: "map_of ?fs m = Some own" by (simp add: update_conv')
  have c: "\<exists>l. map_of ?fs k = Some l \<and> Suc t \<le> length l"
    if "k \<in> set (map fst ?fs)" "k \<noteq> Spatial" "k \<noteq> m" for k
    using others[of k] that by (simp add: keys update_conv')
  define j' where "j' = (if is_backward m then t - j else j)"
  have j': "j' \<le> t" using jt by (simp add: j'_def)
  have nth: "enumerate 0 (frame_indices t m) ! j = (j, int j')"
    using jt by (simp add: nth_enumerate_eq nth_frame_indices j'_def)
  have tk: "take (Suc j) (enumerate 0 (frame_indices t m))
            = take j (enumerate 0 (frame_indices t m)) @ [(j, int j')]"
    using jt nth by (simp add: take_Suc_conv_app_nth)
  from propagate_step_ok[where N=N and hg=hg and fp=fp,
      OF a sp(2) b IH(2) c jt j' fl length_flow_indices flow_indices_range]
  obtain fp' where st: "propagate_step N flows m hg (flow_indices t m) (j, int j') (fp, ?fs)
               = Inr (fp', AList.update m (own @ [fp']) ?fs)" by blast
  have "efold (propagate_step N flows m hg (flow_indices t m))
           (take (Suc j) (enumerate 0 (frame_indices t m))) (fp0, feats)
        = Inr (fp', AList.update m (own @ [fp']) feats)"
    by (simp add: tk efold_append IH(1) st)
  moreover have "length (own @ [fp']) = Suc j" using IH(2) by simp
  ultimately show ?case by blast
qed

lemma seed_step_no_alignment:
  "propagate_step N flows m hg flow_idx (0, idx) s
   = propagate_step (N\<lparr>flow_warp := fw, deform_align := da\<rparr>) flows' m hg flow_idx' (0, idx) s"
  by (simp add: propagate_step_def split: prod.splits)





section \<open>Sequential and batched execution\<close>

lemma size0_rect: "x \<noteq> [] \<Longrightarrow> \<forall>f\<in>set x. length f = n \<Longrightarrow> size0 x = n"
  by (cases x) (simp_all add: size0_def)

lemma length_flatten_nt [simp]: "length (flatten_nt x) = size0 x * length x"
  by (simp add: flatten_nt_def Let_def)

lemma flat_index:
  assumes "tt < t" "b < (n::nat)"
  shows "b * t + tt < n * t" "(b * t + tt) mod t = tt" "(b * t + tt) div t = b"
proof -
  have "b * t + tt < b * t + t" using assms by simp
  also have "\<dots> = Suc b * t" by simp
  also have "\<dots> \<le> n * t" using assms by (intro mult_le_mono1) simp
  finally show "b * t + tt < n * t" .
  show "(b * t + tt) mod t = tt" using assms by simp
  show "(b * t + tt) div t = b" using assms by simp
qed

lemma flatten_nt_nth:
  assumes "tt < length x" "b < n" "\<forall>f\<in>set x. length f = n"
  shows "flatten_nt x ! (b * length x + tt) = x ! tt ! b"
proof -
  have "x \<noteq> []" using assms by auto
  then have n: "size0 x = n" using assms by (simp add: size0_rect)
  show ?thesis
    using flat_index[OF assms(1,2)] by (simp add: flatten_nt_def Let_def n)
qed

lemma view_ntI:
  assumes "length X = t" "\<And>tt. tt < t \<Longrightarrow> length (X ! tt) = n"
      and "\<And>tt b. tt < t \<Longrightarrow> b < n \<Longrightarrow> Y ! (b * t + tt) = X ! tt ! b"
  shows "view_nt n t Y = X"
proof (rule nth_equalityI)
  show "length (view_nt n t Y) = length X" using assms(1) by (simp add: view_nt_def)
next
  fix tt assume "tt < length (view_nt n t Y)"
  then have tt: "tt < t" by (simp add: view_nt_def)
  show "view_nt n t Y ! tt = X ! tt"
  proof (rule nth_equalityI)
    show "length (view_nt n t Y ! tt) = length (X ! tt)"
      using tt assms(2) by (simp add: view_nt_def)
  next
    fix b assume "b < length (view_nt n t Y ! tt)"
    then have "b < n" using tt by (simp add: view_nt_def)
    then show "view_nt n t Y ! tt ! b = X ! tt ! b"
      using tt assms(3) by (simp add: view_nt_def)
  qed
qed

lemma fold_snoc_map: "fold (\<lambda>x acc. acc @ [g x]) xs acc = acc @ map g xs"
  by (induction xs arbitrary: acc) simp_all

lemma map2_nth_upt:
  "length a = k \<Longrightarrow> length b = k \<Longrightarrow> map (\<lambda>i. g (a ! i) (b ! i)) [0..<k] = map2 g a b"
  by (rule nth_equalityI) simp_all

lemma flow_sequential_eq:
  assumes "length a = t - 1" "length b = t - 1"
  shows "flow_sequential N hg t a b = map2 (map2 (spynet N hg)) a b"
  unfolding flow_sequential_def fold_snoc_map append_Nil
  by (rule map2_nth_upt[OF assms])

lemma flow_batched_eq:
  assumes "length a = t - 1" "length b = t - 1"
      and "\<forall>f\<in>set a. length f = n" "\<forall>f\<in>set b. length f = n"
  shows "flow_batched N hg n t a b = map2 (map2 (spynet N hg)) a b"
  unfolding flow_batched_def
proof (rule view_ntI)
  show "length (map2 (map2 (spynet N hg)) a b) = t - 1" using assms by simp
next
  fix tt assume "tt < t - 1"
  then show "length (map2 (map2 (spynet N hg)) a b ! tt) = n" using assms by simp
next
  fix tt b' assume h: "tt < t - 1" "b' < n"
  have la: "tt < length a" "tt < length b" using h assms by simp_all
  have "a \<noteq> []" "b \<noteq> []" using la by auto
  then have s: "size0 a = n" "size0 b = n" using assms by (simp_all add: size0_rect)
  have k: "b' * (t - 1) + tt < n * (t - 1)" using flat_index(1)[OF h] .
  have fa: "flatten_nt a ! (b' * (t - 1) + tt) = a ! tt ! b'"
    using flatten_nt_nth[OF la(1) h(2) assms(3)] assms(1) by simp
  have fb: "flatten_nt b ! (b' * (t - 1) + tt) = b ! tt ! b'"
    using flatten_nt_nth[OF la(2) h(2) assms(4)] assms(2) by simp
  show "map2 (spynet N hg) (flatten_nt a) (flatten_nt b) ! (b' * (t - 1) + tt)
        = map2 (map2 (spynet N hg)) a b ! tt ! b'"
    using k la h assms by (simp add: s fa fb del: One_nat_def)
qed


lemma map_nth_upt: "length xs = k \<Longrightarrow> map (\<lambda>i. xs ! i) [0..<k] = xs"
  by (rule nth_equalityI) simp_all

lemma spatial_sequential_1:
  assumes "cpu_cache self" "length guides = length lqs"
  shows "spatial_features N self lqs guides ei ef 1
         = Inr (map2 (\<lambda>l g. map (feat_extract N 1) (cat_dim1 [l, map (conv_guide_init N 1) g]))
                  lqs guides)"
proof -
  have "efold (\<lambda>i spatial. ebind (py_index guides (int i)) (\<lambda>g.
            Inr (spatial @ [map (feat_extract N 1) (cat_dim1 [lqs ! i, map (conv_guide_init N 1) g])])))
          [0..<length lqs] []
        = Inr ([] @ map (\<lambda>i. map (feat_extract N 1)
                          (cat_dim1 [lqs ! i, map (conv_guide_init N 1) (guides ! i)]))
                    [0..<length lqs])"
    by (rule efold_collect) (simp add: py_index_nat assms(2))
  also have "map (\<lambda>i. map (feat_extract N 1)
                          (cat_dim1 [lqs ! i, map (conv_guide_init N 1) (guides ! i)]))
                    [0..<length lqs]
        = map2 (\<lambda>l g. map (feat_extract N 1) (cat_dim1 [l, map (conv_guide_init N 1) g]))
                  lqs guides"
    by (rule map2_nth_upt) (simp_all add: assms(2))
  finally show ?thesis
    using assms(1) by (simp add: spatial_features_def Let_def del: One_nat_def cat_dim1.simps)
qed

lemma spatial_batched_1:
  assumes "\<not> cpu_cache self" "length guides = length lqs"
      and "\<forall>f\<in>set lqs. length f = size0 lqs" "\<forall>f\<in>set guides. length f = size0 lqs"
  shows "spatial_features N self lqs guides ei ef 1
         = Inr (map2 (\<lambda>l g. map (feat_extract N 1) (cat_dim1 [l, map (conv_guide_init N 1) g]))
                  lqs guides)"
proof -
  let ?n = "size0 lqs" and ?t = "length lqs"
  let ?X = "map2 (\<lambda>l g. map (feat_extract N 1) (cat_dim1 [l, map (conv_guide_init N 1) g]))
                  lqs guides"
  let ?Y = "map (feat_extract N 1)
              (cat_dim1 [flatten_nt lqs, map (conv_guide_init N 1) (flatten_nt guides)])"
  have v: "view_nt ?n ?t ?Y = ?X"
  proof (rule view_ntI)
    show "length ?X = ?t" using assms(2) by simp
  next
    fix tt assume "tt < ?t"
    then show "length (?X ! tt) = ?n" using assms by simp
  next
    fix tt b assume h: "tt < ?t" "b < ?n"
    have g: "tt < length guides" using h assms(2) by simp
    have "guides \<noteq> []" using g by auto
    then have sg: "size0 guides = ?n" using assms(4) by (simp add: size0_rect)
    have k: "b * ?t + tt < ?n * ?t" using flat_index(1)[OF h] .
    have fl: "flatten_nt lqs ! (b * ?t + tt) = lqs ! tt ! b"
      using flatten_nt_nth[OF h assms(3)] .
    have fg: "flatten_nt guides ! (b * ?t + tt) = guides ! tt ! b"
      using flatten_nt_nth[OF g h(2) assms(4)] assms(2) by simp
    show "?Y ! (b * ?t + tt) = ?X ! tt ! b"
      using k h g assms by (simp add: sg fl fg)
  qed
  have "map (\<lambda>i. ?X ! i) [0..<?t] = ?X"
    by (rule map_nth_upt) (simp add: assms(2))
  then show ?thesis
    using assms(1) by (simp add: spatial_features_def Let_def v del: One_nat_def cat_dim1.simps)
qed


lemma map3_nth_upt:
  "length a = k \<Longrightarrow> length b = k \<Longrightarrow> length c = k \<Longrightarrow>
   map (\<lambda>i. g (a ! i) (b ! i) (c ! i)) [0..<k] = map2 (\<lambda>x (y, z). g x y z) a (zip b c)"
  by (rule nth_equalityI) simp_all

lemma spatial_sequential_2:
  assumes "cpu_cache self" "hg \<noteq> 1" "length ei = length lqs" "length ef = length lqs"
  shows "spatial_features N self lqs guides (Some ei) (Some ef) hg
         = Inr (map2 (\<lambda>l (e, f). map (feat_extract N hg)
                                    (cat_dim1 [l, map (conv_guide_init N hg) e, f]))
                  lqs (zip ei ef))"
proof -
  have "efold (\<lambda>i spatial. ebind (py_index ei (int i)) (\<lambda>e. ebind (py_index ef (int i)) (\<lambda>f.
            Inr (spatial @ [map (feat_extract N hg)
                              (cat_dim1 [lqs ! i, map (conv_guide_init N hg) e, f])]))))
          [0..<length lqs] []
        = Inr ([] @ map (\<lambda>i. map (feat_extract N hg)
                          (cat_dim1 [lqs ! i, map (conv_guide_init N hg) (ei ! i), ef ! i]))
                    [0..<length lqs])"
    by (rule efold_collect) (simp add: py_index_nat assms)
  also have "map (\<lambda>i. map (feat_extract N hg)
                          (cat_dim1 [lqs ! i, map (conv_guide_init N hg) (ei ! i), ef ! i]))
                    [0..<length lqs]
        = map2 (\<lambda>l (e, f). map (feat_extract N hg)
                                    (cat_dim1 [l, map (conv_guide_init N hg) e, f]))
                  lqs (zip ei ef)"
    by (rule map3_nth_upt) (simp_all add: assms)
  finally show ?thesis
    using assms(1,2) by (simp add: spatial_features_def Let_def del: cat_dim1.simps)
qed

lemma spatial_batched_2:
  assumes "\<not> cpu_cache self" "hg \<noteq> 1" "length ei = length lqs" "length ef = length lqs"
      and "\<forall>f\<in>set lqs. length f = size0 lqs" "\<forall>f\<in>set ei. length f = size0 lqs"
          "\<forall>f\<in>set ef. length f = size0 lqs"
  shows "spatial_features N self lqs guides (Some ei) (Some ef) hg
         = Inr (map2 (\<lambda>l (e, f). map (feat_extract N hg)
                                    (cat_dim1 [l, map (conv_guide_init N hg) e, f]))
                  lqs (zip ei ef))"
proof -
  let ?n = "size0 lqs" and ?t = "length lqs"
  let ?X = "map2 (\<lambda>l (e, f). map (feat_extract N hg)
                                    (cat_dim1 [l, map (conv_guide_init N hg) e, f]))
                  lqs (zip ei ef)"
  let ?Y = "map (feat_extract N hg)
              (cat_dim1 [flatten_nt lqs, map (conv_guide_init N hg) (flatten_nt ei),
                         flatten_nt ef])"
  have v: "view_nt ?n ?t ?Y = ?X"
  proof (rule view_ntI)
    show "length ?X = ?t" using assms by simp
  next
    fix tt assume "tt < ?t"
    then show "length (?X ! tt) = ?n" using assms by simp
  next
    fix tt b assume h: "tt < ?t" "b < ?n"
    have g: "tt < length ei" "tt < length ef" using h assms by simp_all
    have "ei \<noteq> []" "ef \<noteq> []" using g by auto
    then have sg: "size0 ei = ?n" "size0 ef = ?n" using assms by (simp_all add: size0_rect)
    have k: "b * ?t + tt < ?n * ?t" using flat_index(1)[OF h] .
    have fl: "flatten_nt lqs ! (b * ?t + tt) = lqs ! tt ! b"
      using flatten_nt_nth[OF h assms(5)] .
    have fe: "flatten_nt ei ! (b * ?t + tt) = ei ! tt ! b"
      using flatten_nt_nth[OF g(1) h(2) assms(6)] assms(3) by simp
    have ff: "flatten_nt ef ! (b * ?t + tt) = ef ! tt ! b"
      using flatten_nt_nth[OF g(2) h(2) assms(7)] assms(4) by simp
    show "?Y ! (b * ?t + tt) = ?X ! tt ! b"
      using k h g assms by (simp add: sg fl fe ff)
  qed
  have "map (\<lambda>i. ?X ! i) [0..<?t] = ?X"
    by (rule map_nth_upt) (simp add: assms)
  then show ?thesis
    using assms(1,2) by (simp add: spatial_features_def Let_def v del: cat_dim1.simps)
qed


lemma spatial_modes:
  assumes "stage_shapes lqs guides ei ef hg"
  shows "spatial_features N self lqs guides ei ef hg = spatial_features N self' lqs guides ei ef hg"
proof (cases "hg = 1")
  case True
  have g: "length guides = length lqs" "\<forall>f\<in>set lqs. length f = size0 lqs"
    "\<forall>f\<in>set guides. length f = size0 lqs"
    using assms by (simp_all add: stage_shapes_def list_all_iff)
  have "spatial_features N s lqs guides ei ef 1
         = Inr (map2 (\<lambda>l g. map (feat_extract N 1) (cat_dim1 [l, map (conv_guide_init N 1) g]))
                  lqs guides)" for s
    using spatial_sequential_1[OF _ g(1)] spatial_batched_1[OF _ g] by (cases "cpu_cache s") blast+
  then show ?thesis unfolding True by simp
next
  case False
  then obtain ei' ef' where e: "ei = Some ei'" "ef = Some ef'"
    and g: "length ei' = length lqs" "length ef' = length lqs"
      "\<forall>f\<in>set lqs. length f = size0 lqs" "\<forall>f\<in>set ei'. length f = size0 lqs"
      "\<forall>f\<in>set ef'. length f = size0 lqs"
    using assms by (auto simp: stage_shapes_def list_all_iff split: option.splits)
  have "spatial_features N s lqs guides (Some ei') (Some ef') hg
         = Inr (map2 (\<lambda>l (e, f). map (feat_extract N hg)
                                    (cat_dim1 [l, map (conv_guide_init N hg) e, f]))
                  lqs (zip ei' ef'))" for s
    using spatial_sequential_2[OF _ False g(1,2)] spatial_batched_2[OF _ False g]
    by (cases "cpu_cache s") blast+
  then show ?thesis unfolding e by simp
qed

lemma compute_flow_modes:
  assumes "\<forall>f\<in>set guides. length f = size0 guides" "\<not> is_mirror_extended self"
  shows "compute_flow N self guides hg =
           Inr (Some (map2 (map2 (spynet N hg)) (tl guides) (butlast guides)),
                map2 (map2 (spynet N hg)) (butlast guides) (tl guides))"
proof -
  have l: "length (butlast guides) = length guides - 1" "length (tl guides) = length guides - 1"
    by simp_all
  have "set (tl guides) \<subseteq> set guides" by (cases guides) auto
  then have r: "\<forall>f\<in>set (butlast guides). length f = size0 guides"
    "\<forall>f\<in>set (tl guides). length f = size0 guides"
    using assms(1) by (auto dest: in_set_butlastD)
  show ?thesis
    using assms(2)
    by (simp add: compute_flow_def Let_def flow_sequential_eq[OF l] flow_sequential_eq[OF l(2,1)]
        flow_batched_eq[OF l r] flow_batched_eq[OF l(2,1) r(2,1)])
qed

lemma flows_for_propagation_modes:
  assumes "\<forall>f\<in>set guides. length f = size0 guides"
      and "is_mirror_extended self = is_mirror_extended self'"
  shows "flows_for_propagation N self n t guides hg = flows_for_propagation N self' n t guides hg"
proof (cases "is_mirror_extended self")
  case True
  then show ?thesis using assms(2) by (simp add: flows_for_propagation_flagged)
next
  case False
  then show ?thesis
    using assms(2) by (simp add: flows_for_propagation_def compute_flow_modes[OF assms(1)])
qed

lemma propagate_modes:
  "mid_channels self = mid_channels self' \<Longrightarrow>
   propagate N self feats flows m hg = propagate N self' feats flows m hg"
  by (simp add: propagate_def new_zeros_def)

lemma upsample_modes: "upsample N self lqs feats hg = upsample N self' lqs feats hg"
  by (simp add: upsample_def)

lemma check_fields [simp]:
  "mid_channels (check_if_mirror_extended self lqs) = mid_channels self"
  "is_mirror_extended (check_if_mirror_extended (self\<lparr>cpu_cache := c\<rparr>) lqs)
   = is_mirror_extended (check_if_mirror_extended self lqs)"
  by (simp_all add: check_if_mirror_extended_def split: prod.splits)

lemma rect_guides:
  assumes "stage_shapes lqs guides ei ef hg"
  shows "\<forall>f\<in>set guides. length f = size0 guides"
proof (cases guides)
  case Nil
  then show ?thesis by simp
next
  case (Cons g gs)
  then have "size0 guides = size0 lqs"
    using assms by (simp add: stage_shapes_def size0_def)
  then show ?thesis using assms by (simp add: stage_shapes_def list_all_iff)
qed

lemma hg_forward_modes:
  assumes "stage_shapes lqs guides ei ef hg"
      and "mid_channels sa = mid_channels sb" "is_mirror_extended sa = is_mirror_extended sb"
  shows "snd (hg_forward N sa cuda_a lqs guides ei ef hg)
         = snd (hg_forward N sb cuda_b lqs guides ei ef hg)"
proof -
  let ?A = "check_if_mirror_extended
              (sa\<lparr>cpu_cache := (length lqs > cpu_cache_length sa \<and> cuda_a)\<rparr>) lqs"
  let ?B = "check_if_mirror_extended
              (sb\<lparr>cpu_cache := (length lqs > cpu_cache_length sb \<and> cuda_b)\<rparr>) lqs"
  have m: "mid_channels ?A = mid_channels ?B" using assms(2) by simp
  have f: "is_mirror_extended ?A = is_mirror_extended ?B"
    using assms(3) by (simp add: check_if_mirror_extended_def split: prod.splits)
  have 1: "spatial_features N ?A lqs guides ei ef hg = spatial_features N ?B lqs guides ei ef hg"
    by (rule spatial_modes[OF assms(1)])
  have 2: "flows_for_propagation N ?A n t guides hg = flows_for_propagation N ?B n t guides hg"
    for n t
    by (rule flows_for_propagation_modes[OF rect_guides[OF assms(1)] f])
  have 3: "propagate N ?A = propagate N ?B"
    by (intro ext) (rule propagate_modes[OF m])
  have 4: "upsample N ?A = upsample N ?B"
    by (intro ext) (rule upsample_modes)
  show ?thesis
    by (simp only: hg_forward_def Let_def snd_conv 1 2 3 4)
qed




section \<open>The histogram error model\<close>

lemma fold_max_const:
  "\<forall>k\<in>set ks. f k = c \<Longrightarrow> fold (\<lambda>k acc. max acc (f k)) ks (c::real) = c"
  by (induction ks) simp_all

lemma axis_max_const: "0 < n \<Longrightarrow> \<forall>k<n. f k = c \<Longrightarrow> axis_max n f = c"
  by (simp add: axis_max_def fold_max_const)

text \<open>
  Claim C8. Where the input CDF of a pixel-patch is zero in every bin, \<open>get_inp_error\<close>
  raises nothing, the error map holds exactly \<open>-1\<close> there before it is upsampled, and
  after the upsampling by \<open>pitch\<close> every pixel the patch covers holds exactly \<open>-1\<close>.
\<close>

theorem sentinel_survives_upsampling:
  assumes "0 < M" "\<forall>m<M. cdf b m y x = 0"
  shows "\<exists>before out.
           inp_error_map C M cdf rebin_idx pred img pitch temp_res = Inr before
         \<and> before b 0 y x = - 1
         \<and> get_inp_error C M cdf rebin_idx pred img pitch temp_res = Inr out
         \<and> (\<forall>Y X. Y div pitch = y \<and> X div pitch = x \<longrightarrow> out b 0 Y X = - 1)"
proof -
  have m: "axis_max M (\<lambda>k. cdf b k y x) = 0"
    using assms by (simp add: axis_max_const)
  have "axis_max M (\<lambda>k. cdf b k y x / (axis_max M (\<lambda>k. cdf b k y x) + 1 / 1000)) = 0"
    using assms by (intro axis_max_const) simp_all
  then show ?thesis
    using assms(1)
    by (simp add: inp_error_map_def get_inp_error_def Let_def repeat_interleave2_def)
qed

theorem sentinel_survives_upsampling_witness:
  "(0::nat) < 2 \<and> ((\<lambda>b m y x. if x = 1 then real m + 1 else 0) :: grid) 0 0 0 0 = 0
   \<and> ((\<lambda>b m y x. if x = 1 then real m + 1 else 0) :: grid) 0 1 0 0 = 0
   \<and> (case inp_error_map 3 2 (\<lambda>b m y x. if x = 1 then real m + 1 else 0)
              (\<lambda>b m y x. real m) (\<lambda>b c y x. 1 / 2) (\<lambda>b c y x. 1) 2 2 of
         Inr before \<Rightarrow> before 0 0 0 0 = - 1 | Inl e \<Rightarrow> False)
   \<and> (case get_inp_error 3 2 (\<lambda>b m y x. if x = 1 then real m + 1 else 0)
              (\<lambda>b m y x. real m) (\<lambda>b c y x. 1 / 2) (\<lambda>b c y x. 1) 2 2 of
         Inr out \<Rightarrow> out 0 0 0 0 = - 1 \<and> out 0 0 1 1 = - 1 \<and> out 0 0 0 2 \<noteq> - 1
       | Inl e \<Rightarrow> False)"
proof -
  let ?cdf = "(\<lambda>b m y x. if x = 1 then real m + 1 else 0) :: grid"
  have h1: "(0::nat) < 2" by simp
  have h2: "\<forall>m<2. ?cdf 0 m 0 0 = 0" by simp
  note t = sentinel_survives_upsampling[where cdf="?cdf" and M=2 and b=0 and y=0 and x=0 and C=3
      and rebin_idx="\<lambda>b m y x. real m" and pred="\<lambda>b c y x. 1 / 2" and img="\<lambda>b c y x. 1"
      and pitch=2 and temp_res=2, OF h1 h2]
  from t obtain before out where
    a: "inp_error_map 3 2 ?cdf (\<lambda>b m y x. real m) (\<lambda>b c y x. 1 / 2) (\<lambda>b c y x. 1) 2 2
        = Inr before"
      "before 0 0 0 0 = - 1"
    and b: "get_inp_error 3 2 ?cdf (\<lambda>b m y x. real m) (\<lambda>b c y x. 1 / 2) (\<lambda>b c y x. 1) 2 2
        = Inr out"
      "\<forall>Y X. Y div 2 = 0 \<and> X div 2 = 0 \<longrightarrow> out 0 0 Y X = - 1"
    by blast
  have c: "out 0 0 0 0 = - 1" "out 0 0 1 1 = - 1" using b(2) by simp_all
  have d: "(case get_inp_error 3 2 ?cdf (\<lambda>b m y x. real m) (\<lambda>b c y x. 1 / 2)
                 (\<lambda>b c y x. 1) 2 2 of
         Inr out \<Rightarrow> out 0 0 0 2 \<noteq> - 1 | Inl e \<Rightarrow> False)"
    by code_simp
  from h1 h2 a b(1) c d show ?thesis by simp
qed

lemma axis_sum_nonneg: "(\<And>k. k < n \<Longrightarrow> 0 \<le> f k) \<Longrightarrow> 0 \<le> axis_sum n f"
  unfolding axis_sum_def by (rule sum_list_nonneg) auto

lemma axis_sum_prefix:
  assumes "n \<le> n'" "\<And>k. 0 \<le> g k"
  shows "axis_sum n g \<le> axis_sum n' g"
proof -
  have "[0..<n'] = [0..<n] @ [n..<n']"
    using assms(1) by (metis le_add_diff_inverse upt_add_eq_append zero_le)
  then have "axis_sum n' g = axis_sum n g + sum_list (map g [n..<n'])"
    by (simp add: axis_sum_def)
  moreover have "0 \<le> sum_list (map g [n..<n'])"
    by (rule sum_list_nonneg) (use assms(2) in auto)
  ultimately show ?thesis by simp
qed

lemma axis_sum_divide: "axis_sum n (\<lambda>k. f k / c) = axis_sum n f / c"
proof -
  have "sum_list (map (\<lambda>k. f k / c) ks) = sum_list (map f ks) / c" for ks
    by (induction ks) (simp_all add: add_divide_distrib)
  then show ?thesis by (simp add: axis_sum_def)
qed

lemma hist_nonneg:
  assumes "\<And>dy dx. dy < pitch \<Longrightarrow> dx < pitch \<Longrightarrow>
             0 \<le> axis_sum C (\<lambda>c. img b c (py * pitch + dy) (px * pitch + dx))"
  shows "0 \<le> dtof_hist_torch C M d img rebin_idx pitch temp_res b m py px"
proof -
  have r: "0 \<le> axis_sum C (\<lambda>c. img b c (py * pitch + dy) (px * pitch + dx)) / real C
             / (1 / 1000 + (torch_clamp 0 1 (d b 0 (py * pitch + dy) (px * pitch + dx)))\<^sup>2)"
    if "dy < pitch" "dx < pitch" for dy dx
  proof -
    have "0 < 1 / 1000 + (torch_clamp 0 1 (d b 0 (py * pitch + dy) (px * pitch + dx)))\<^sup>2"
      by (simp add: add_pos_nonneg)
    with assms[OF that] show ?thesis by simp
  qed
  show ?thesis
    unfolding dtof_hist_torch_def Let_def
    by (intro axis_sum_nonneg mult_nonneg_nonneg r) simp_all
qed

text \<open>
  Claim C7, for guide images whose channel mean is non-negative on the pixels of the
  patch. The histogram of \<open>dtof_hist_torch\<close>, summed over the bins of a pixel-patch, is
  non-negative; the predicted CDF inside \<open>get_inp_error\<close> does not decrease along the bin
  axis, and lies in \<open>[0, 1]\<close> at each of its \<open>M - 1\<close> bins.
\<close>

theorem histogram_nonneg_cdf_monotone:
  assumes alb: "\<forall>dy<pitch. \<forall>dx<pitch.
             0 \<le> axis_sum C (\<lambda>c. img b c (py * pitch + dy) (px * pitch + dx))"
  shows "0 \<le> axis_sum M (\<lambda>m. dtof_hist_torch C M d img rebin_idx pitch temp_res b m py px)
       \<and> (\<forall>m m'. m \<le> m' \<longrightarrow>
             predicted_cdf C M rebin_idx d img pitch temp_res b m py px
             \<le> predicted_cdf C M rebin_idx d img pitch temp_res b m' py px)
       \<and> (\<forall>m. m < M - 1 \<longrightarrow>
             0 \<le> predicted_cdf C M rebin_idx d img pitch temp_res b m py px
             \<and> predicted_cdf C M rebin_idx d img pitch temp_res b m py px \<le> 1)"
proof -
  let ?h = "\<lambda>m. dtof_hist_torch C (M - 1) d img rebin_idx pitch temp_res b m py px"
  let ?S = "axis_sum (M - 1) ?h"
  have h: "0 \<le> dtof_hist_torch C M' d img rebin_idx pitch temp_res b m py px" for M' m
    by (rule hist_nonneg) (use alb in simp)
  have S: "0 \<le> ?S" by (rule axis_sum_nonneg) (rule h)
  have cdf: "predicted_cdf C M rebin_idx d img pitch temp_res b m py px
             = axis_sum (m + 1) ?h / (?S + 1 / 1000)" for m
    by (simp add: predicted_cdf_def Let_def axis_sum_divide)
  have pos: "0 < ?S + 1 / 1000" using S by simp
  have 1: "0 \<le> axis_sum M (\<lambda>m. dtof_hist_torch C M d img rebin_idx pitch temp_res b m py px)"
    by (rule axis_sum_nonneg) (rule h)
  have 2: "predicted_cdf C M rebin_idx d img pitch temp_res b m py px
             \<le> predicted_cdf C M rebin_idx d img pitch temp_res b m' py px" if "m \<le> m'" for m m'
  proof -
    have "axis_sum (m + 1) ?h \<le> axis_sum (m' + 1) ?h"
      by (rule axis_sum_prefix) (use that h in simp_all)
    then show ?thesis unfolding cdf using pos by (simp add: divide_right_mono)
  qed
  have 3: "0 \<le> predicted_cdf C M rebin_idx d img pitch temp_res b m py px
             \<and> predicted_cdf C M rebin_idx d img pitch temp_res b m py px \<le> 1" if "m < M - 1" for m
  proof -
    have a: "0 \<le> axis_sum (m + 1) ?h" by (rule axis_sum_nonneg) (rule h)
    have "axis_sum (m + 1) ?h \<le> ?S"
      by (rule axis_sum_prefix) (use that h in simp_all)
    then have "axis_sum (m + 1) ?h \<le> ?S + 1 / 1000" by simp
    then have "axis_sum (m + 1) ?h / (?S + 1 / 1000) \<le> 1" using pos by simp
    with a pos show ?thesis unfolding cdf by simp
  qed
  from 1 2 3 show ?thesis by blast
qed

theorem histogram_nonneg_cdf_monotone_witness:
  "0 \<le> axis_sum 3 (\<lambda>c. ((\<lambda>b c y x. 1) :: grid) 0 c 0 0)
   \<and> 0 \<le> axis_sum 3 (\<lambda>m. dtof_hist_torch 3 3 (\<lambda>b c y x. if y = 0 \<and> x = 0 then 0 else 1)
                               (\<lambda>b c y x. 1) (\<lambda>b k y x. real k) 2 4 0 m 0 0)
   \<and> predicted_cdf 3 3 (\<lambda>b k y x. real k) (\<lambda>b c y x. if y = 0 \<and> x = 0 then 0 else 1)
         (\<lambda>b c y x. 1) 2 4 0 0 0 0
       \<le> predicted_cdf 3 3 (\<lambda>b k y x. real k) (\<lambda>b c y x. if y = 0 \<and> x = 0 then 0 else 1)
           (\<lambda>b c y x. 1) 2 4 0 1 0 0
   \<and> 0 < predicted_cdf 3 3 (\<lambda>b k y x. real k) (\<lambda>b c y x. if y = 0 \<and> x = 0 then 0 else 1)
         (\<lambda>b c y x. 1) 2 4 0 0 0 0
   \<and> predicted_cdf 3 3 (\<lambda>b k y x. real k) (\<lambda>b c y x. if y = 0 \<and> x = 0 then 0 else 1)
         (\<lambda>b c y x. 1) 2 4 0 1 0 0 \<le> 1"
proof -
  let ?img = "(\<lambda>b c y x. 1) :: grid"
  let ?d = "(\<lambda>b c y x. if y = 0 \<and> x = 0 then 0 else 1) :: grid"
  let ?rb = "(\<lambda>b k y x. real k) :: grid"
  have a: "0 \<le> axis_sum 3 (\<lambda>c. ?img 0 c 0 0)" by code_simp
  have h: "\<forall>dy<2. \<forall>dx<2. 0 \<le> axis_sum 3 (\<lambda>c. ?img 0 c (0 * 2 + dy) (0 * 2 + dx))"
    using a by simp
  note t = histogram_nonneg_cdf_monotone[where img="?img" and d="?d" and rebin_idx="?rb" and C=3 and M=3 and pitch=2
      and temp_res=4 and b=0 and py=0 and px=0, OF h]
  have p: "0 < predicted_cdf 3 3 ?rb ?d ?img 2 4 0 0 0 0" by code_simp
  have m: "predicted_cdf 3 3 ?rb ?d ?img 2 4 0 0 0 0 \<le> predicted_cdf 3 3 ?rb ?d ?img 2 4 0 1 0 0"
    using t by blast
  have u: "predicted_cdf 3 3 ?rb ?d ?img 2 4 0 1 0 0 \<le> 1"
    using t by simp
  from a t[THEN conjunct1] m p u show ?thesis by blast
qed

text \<open>
  Without the condition on the guide image the property fails: for the guide image that
  is \<open>-1\<close> in every channel and the depth \<open>0\<close>, the histogram of the patch sums to
  \<open>-1000\<close>, and the predicted CDF is \<open>1000 / 999.999\<close>, above \<open>1\<close>.
\<close>

theorem negative_guide_counterexample:
  "\<not> 0 \<le> axis_sum 1 (\<lambda>m. dtof_hist_torch 3 1 (\<lambda>b c y x. 0) (\<lambda>b c y x. - 1) (\<lambda>b m y x. 0) 1 2
                             0 m 0 0)
   \<and> \<not> predicted_cdf 3 2 (\<lambda>b m y x. 0) (\<lambda>b c y x. 0) (\<lambda>b c y x. - 1) 1 2 0 0 0 0 \<le> 1"
  by code_simp

lemma fold_max_le:
  "\<forall>k\<in>set ks. f k \<le> c \<Longrightarrow> fold (\<lambda>k acc. max acc (f k)) ks (c::real) = c"
  by (induction ks) (simp_all add: max_absorb1)

lemma axis_max_first: "\<forall>k<n. f k \<le> f 0 \<Longrightarrow> axis_max n f = f 0"
  by (simp add: axis_max_def fold_max_le)

lemma pool_rows:
  "0 < pitch \<Longrightarrow> neg_max_pool_neg pitch (\<lambda>i j. real i) py px = real (py * pitch)"
proof -
  assume p: "0 < pitch"
  have "axis_max pitch (\<lambda>dx. - real (py * pitch + dy)) = - real (py * pitch + dy)" for dy
    using p by (intro axis_max_const) simp_all
  moreover have "axis_max pitch (\<lambda>dy. - real (py * pitch + dy)) = - real (py * pitch + 0)"
    by (rule axis_max_first) simp
  ultimately show ?thesis by (simp add: neg_max_pool_neg_def)
qed

lemma pool_cols:
  "0 < pitch \<Longrightarrow> neg_max_pool_neg pitch (\<lambda>i j. real j) py px = real (px * pitch)"
proof -
  assume p: "0 < pitch"
  have "axis_max pitch (\<lambda>dx. - real (px * pitch + dx)) = - real (px * pitch + 0)"
    by (rule axis_max_first) simp
  then have "axis_max pitch (\<lambda>dy. axis_max pitch (\<lambda>dx. - real (px * pitch + dx)))
             = - real (px * pitch)"
    using p by (simp add: axis_max_const)
  then show ?thesis by (simp add: neg_max_pool_neg_def)
qed

lemma real_sub_div_mult: "real i - real (i div p) * real p = real (i mod p)"
proof -
  have "real (i div p * p + i mod p) = real (i div p) * real p + real (i mod p)"
    by (simp only: of_nat_add of_nat_mult)
  then have "real i = real (i div p) * real p + real (i mod p)"
    by (simp only: div_mult_mod_eq)
  then show ?thesis by linarith
qed

text \<open>
  Claim C9, as the code computes it. For a positive \<open>pitch\<close> that divides \<open>H\<close> and \<open>W\<close>,
  \<open>get_pos_encoding\<close> gives six channels per pixel \<open>(i, j)\<close>: the position divided by the
  image size; the offset of the pixel from the first row and the first column of its
  patch, divided by \<open>pitch\<close>; and the first row and first column of the patch, divided
  by the image size. The pooled coordinate \<open>-MaxPool2d(-y)\<close> is the least coordinate of
  the patch, its corner, where the comment and the docstring of the source speak of the
  patch center. The result is the same for every batch and time index.
\<close>

theorem pos_encoding_patch_corner:
  assumes "0 < pitch" "pitch dvd H" "pitch dvd W" "i < H" "j < W"
  shows "get_pos_encoding B T H W pitch b t 0 i j = real i / real H
       \<and> get_pos_encoding B T H W pitch b t 1 i j = real j / real W
       \<and> get_pos_encoding B T H W pitch b t 2 i j = real (i mod pitch) / real pitch
       \<and> get_pos_encoding B T H W pitch b t 3 i j = real (j mod pitch) / real pitch
       \<and> get_pos_encoding B T H W pitch b t 4 i j = real (i div pitch * pitch) / real H
       \<and> get_pos_encoding B T H W pitch b t 5 i j = real (j div pitch * pitch) / real W
       \<and> get_pos_encoding B T H W pitch b t = get_pos_encoding B' T' H W pitch b' t'"
  using assms(1)
  by (simp add: get_pos_encoding_def Let_def repeat_interleave2_def pool_rows pool_cols
      real_sub_div_mult)

theorem pos_encoding_patch_corner_witness:
  "(0::nat) < 2 \<and> (2::nat) dvd 2 \<and> (0::nat) < 2 \<and> (1::nat) < 2
   \<and> get_pos_encoding 1 1 2 2 2 0 0 2 0 0 = 0
   \<and> get_pos_encoding 1 1 2 2 2 0 0 3 0 0 = 0
   \<and> get_pos_encoding 1 1 2 2 2 0 0 4 0 0 = 0
   \<and> get_pos_encoding 1 1 2 2 2 0 0 5 0 0 = 0
   \<and> get_pos_encoding 1 1 2 2 2 0 0 0 1 1 = 1 / 2
   \<and> get_pos_encoding 1 1 2 2 2 0 0 1 1 1 = 1 / 2
   \<and> get_pos_encoding 1 1 2 2 2 0 0 2 1 1 = 1 / 2
   \<and> get_pos_encoding 1 1 2 2 2 0 0 3 1 1 = 1 / 2
   \<and> get_pos_encoding 1 1 2 2 2 0 0 4 1 1 = 0
   \<and> get_pos_encoding 1 1 2 2 2 0 0 5 1 1 = 0"
proof -
  have h: "(0::nat) < 2" "(2::nat) dvd 2" "(1::nat) < 2" by simp_all
  note a = pos_encoding_patch_corner[where pitch=2 and H=2 and W=2 and i=0 and j=0 and B=1 and T=1 and b=0
      and t=0, OF h(1) h(2) h(2) h(1) h(1)]
  note b = pos_encoding_patch_corner[where pitch=2 and H=2 and W=2 and i=1 and j=1 and B=1 and T=1 and b=0
      and t=0, OF h(1) h(2) h(2) h(3) h(3)]
  from h a b show ?thesis by simp
qed

end
